theory Spec2Isabelle
  imports Complex_Main "HOL-Library.AList"
begin

section \<open>Python strings\<close>

text \<open>
  A Python \<open>str\<close> is modelled as a \<open>string\<close> whose characters are the code points
  U+0000 to U+00FF. The character classes below are the ones Python uses on that range:
  \<open>str.isspace\<close> (also the class \<open>\s\<close> of \<open>re\<close> on \<open>str\<close> patterns and the characters
  \<open>str.strip()\<close> removes) and the decimal digits (the class \<open>\d\<close>).
\<close>

definition is_space :: "char \<Rightarrow> bool" where
  "is_space c =
     (let n = (of_char c :: nat)
      in (9 \<le> n \<and> n \<le> 13) \<or> (28 \<le> n \<and> n \<le> 32) \<or> n = 133 \<or> n = 160)"

definition is_digit :: "char \<Rightarrow> bool" where
  "is_digit c = (let n = (of_char c :: nat) in 48 \<le> n \<and> n \<le> 57)"

definition digit_val :: "char \<Rightarrow> int" where
  "digit_val c = (of_char c :: int) - 48"

definition newline :: char where
  "newline = CHR 0x0A"

text \<open>The character class \<open>[\d\.]\<close>.\<close>

definition is_numch :: "char \<Rightarrow> bool" where
  "is_numch c = (is_digit c \<or> c = CHR ''.'')"

text \<open>\<open>s.strip()\<close>\<close>

definition strip :: "string \<Rightarrow> string" where
  "strip s = rev (dropWhile is_space (rev (dropWhile is_space s)))"

text \<open>\<open>s.startswith(p)\<close>\<close>

fun starts_with :: "string \<Rightarrow> string \<Rightarrow> bool" where
  "starts_with [] s = True"
| "starts_with (p # ps) [] = False"
| "starts_with (p # ps) (c # cs) = (p = c \<and> starts_with ps cs)"

text \<open>
  \<open>find_sub p s\<close> is the leftmost occurrence of \<open>p\<close> in \<open>s\<close>: the text before it and the
  text after it, as \<open>s.split(p, 1)\<close> and \<open>s.partition(p)\<close> cut it.
\<close>

fun find_sub :: "string \<Rightarrow> string \<Rightarrow> (string \<times> string) option" where
  "find_sub p [] = (if p = [] then Some ([], []) else None)"
| "find_sub p (c # cs) =
     (if starts_with p (c # cs) then Some ([], drop (length p) (c # cs))
      else (case find_sub p cs of
              None \<Rightarrow> None
            | Some (b, a) \<Rightarrow> Some (c # b, a)))"

text \<open>\<open>p in s\<close>\<close>

definition contains :: "string \<Rightarrow> string \<Rightarrow> bool" where
  "contains p s = (find_sub p s \<noteq> None)"

lemma starts_with_append: "starts_with p (p @ r)"
  by (induction p) auto

lemma starts_with_iff: "starts_with p s \<longleftrightarrow> (\<exists>r. s = p @ r)"
proof (induction p s rule: starts_with.induct)
  case (1 s)
  then show ?case by simp
next
  case (2 p ps)
  then show ?case by simp
next
  case (3 p ps c cs)
  then show ?case by auto
qed

lemma starts_with_length: "starts_with p s \<Longrightarrow> length p \<le> length s"
  by (auto simp: starts_with_iff)

lemma find_sub_length:
  "find_sub p s = Some (b, a) \<Longrightarrow> length b + length p + length a = length s"
proof (induction s arbitrary: b a)
  case Nil
  then show ?case by (simp split: if_splits)
next
  case (Cons c cs)
  show ?case
  proof (cases "starts_with p (c # cs)")
    case True
    with Cons.prems starts_with_length [OF True] show ?thesis by auto
  next
    case False
    with Cons.prems obtain b' where "find_sub p cs = Some (b', a)" and "b = c # b'"
      by (auto split: option.splits)
    with Cons.IH [of b' a] show ?thesis by simp
  qed
qed

text \<open>
  \<open>s.split(p)\<close> for a non-empty separator: every non-overlapping occurrence, from the left.
  (Python raises \<open>ValueError\<close> on an empty separator; the source only splits on constants.)
\<close>

function split_on :: "string \<Rightarrow> string \<Rightarrow> string list" where
  "split_on p s =
     (if p = [] then [s]
      else (case find_sub p s of
              None \<Rightarrow> [s]
            | Some (b, a) \<Rightarrow> b # split_on p a))"
  by pat_completeness auto
termination
proof (relation "measure (\<lambda>(p, s). length s)")
  show "wf (measure (\<lambda>(p, s). length s))" by simp
next
  fix p s :: string and x2 :: "string \<times> string" and b a :: string
  assume "p \<noteq> []" and "find_sub p s = Some x2" and "(b, a) = x2"
  then have "find_sub p s = Some (b, a)" by simp
  from find_sub_length [OF this] \<open>p \<noteq> []\<close>
  show "((p, a), (p, s)) \<in> measure (\<lambda>(p, s). length s)"
    by (cases p) auto
qed

text \<open>\<open>s.replace(p, '')\<close> for a non-empty \<open>p\<close>.\<close>

function remove_all :: "string \<Rightarrow> string \<Rightarrow> string" where
  "remove_all p s =
     (if p = [] then s
      else (case s of
              [] \<Rightarrow> []
            | c # cs \<Rightarrow>
                if starts_with p s then remove_all p (drop (length p) s)
                else c # remove_all p cs))"
  by pat_completeness auto
termination
  by (relation "measure (\<lambda>(p, s). length s)") (auto simp: neq_Nil_conv)

declare split_on.simps [simp del] remove_all.simps [simp del]

section \<open>Python floats\<close>

text \<open>
  A \<open>float\<close> is an IEEE 754 double: a finite value (a rational that has a 53-bit
  significand at a binary exponent of the double range; the two zeros are not told apart,
  as \<open>==\<close> and \<open>int()\<close> do not), an infinity or a NaN.
\<close>

datatype pyfloat = Finite rat | PInf | NInf | NaN

text \<open>The exceptions of the conversions, each with its message.\<close>

datatype py_exn = ValueError string | OverflowError string

text \<open>\<open>str(e)\<close>\<close>

fun exn_text :: "py_exn \<Rightarrow> string" where
  "exn_text (ValueError m) = m"
| "exn_text (OverflowError m) = m"

text \<open>
  \<open>repr(s)\<close> for a \<open>str\<close>: between double quotes when the text holds a single quote and no
  double quote, between single quotes otherwise; the quote and the backslash are escaped,
  the tabulator, the newline and the carriage return are written \<open>\t\<close>, \<open>\n\<close> and \<open>\r\<close>, and
  the other characters that do not print are written \<open>\xNN\<close>.
\<close>

definition hex_digit :: "nat \<Rightarrow> char" where
  "hex_digit n = (if n < 10 then char_of (48 + n) else char_of (87 + n))"

definition repr_char :: "char \<Rightarrow> char \<Rightarrow> string" where
  "repr_char quote c =
     (let n = (of_char c :: nat)
      in if c = quote \<or> c = CHR 0x5C then [CHR 0x5C, c]
         else if n = 9 then [CHR 0x5C, CHR ''t'']
         else if n = 10 then [CHR 0x5C, CHR ''n'']
         else if n = 13 then [CHR 0x5C, CHR ''r'']
         else if n < 32 \<or> n = 127 \<or> (128 \<le> n \<and> n \<le> 160) \<or> n = 173
         then [CHR 0x5C, CHR ''x'', hex_digit (n div 16), hex_digit (n mod 16)]
         else [c])"

definition py_repr :: "string \<Rightarrow> string" where
  "py_repr s =
     (let quote = (if CHR 0x27 \<in> set s \<and> CHR 0x22 \<notin> set s then CHR 0x22 else CHR 0x27)
      in quote # concat (map (repr_char quote) s) @ [quote])"

text \<open>The exception of \<open>float(s)\<close> on a text that is no float literal.\<close>

definition float_error :: "string \<Rightarrow> py_exn" where
  "float_error s = ValueError (''could not convert string to float: '' @ py_repr s)"

definition pow2 :: "int \<Rightarrow> rat" where
  "pow2 k = (if 0 \<le> k then of_int (2 ^ nat k) else 1 / of_int (2 ^ nat (- k)))"

function ilog2 :: "int \<Rightarrow> int" where
  "ilog2 n = (if n < 2 then 0 else ilog2 (n div 2) + 1)"
  by pat_completeness auto
termination
  by (relation "measure nat") auto

declare ilog2.simps [simp del]

text \<open>\<open>floor_log2 n d\<close> is the binary exponent of \<open>n / d\<close>, for positive \<open>n\<close> and \<open>d\<close>.\<close>

definition floor_log2 :: "int \<Rightarrow> int \<Rightarrow> int" where
  "floor_log2 n d =
     (let k = ilog2 n - ilog2 d
      in if pow2 k \<le> of_int n / of_int d then k else k - 1)"

text \<open>Round to nearest, ties to even, of \<open>num / den\<close>.\<close>

definition round_half_even :: "int \<Rightarrow> int \<Rightarrow> int" where
  "round_half_even num den =
     (let q = num div den; r = num mod den
      in if 2 * r < den then q
         else if den < 2 * r then q + 1
         else if even q then q else q + 1)"

text \<open>
  The double nearest to the decimal \<open>m * 10 ^ x\<close>, as the correctly rounded
  string-to-double conversion of CPython gives it: the significand has 53 bits, the
  exponent of the last place is at least \<open>-1074\<close> (subnormal numbers, underflow to zero),
  and a result of \<open>2 ^ 1024\<close> or more is an infinity. The Boolean is the sign.
\<close>

definition round_double :: "bool \<Rightarrow> int \<Rightarrow> int \<Rightarrow> pyfloat" where
  "round_double neg m x =
     (if m = 0 then Finite 0
      else
        let n = (if 0 \<le> x then m * 10 ^ nat x else m);
            d = (if 0 \<le> x then 1 else 10 ^ nat (- x));
            e = floor_log2 n d;
            qe = max (e - 52) (- 1074);
            sig = (if 0 \<le> qe then round_half_even n (d * 2 ^ nat qe)
                   else round_half_even (n * 2 ^ nat (- qe)) d);
            v = of_int sig * pow2 qe
        in if pow2 1024 \<le> v then (if neg then NInf else PInf)
           else Finite (if neg then - v else v))"

definition int_of_digits :: "string \<Rightarrow> int" where
  "int_of_digits ds = foldl (\<lambda>n c. 10 * n + digit_val c) 0 ds"

definition lower :: "char \<Rightarrow> char" where
  "lower c =
     (let n = (of_char c :: nat) in if 65 \<le> n \<and> n \<le> 90 then char_of (n + 32) else c)"

text \<open>The exponent part of a float literal: empty, or \<open>e\<close>, an optional sign and digits.\<close>

definition parse_exponent :: "string \<Rightarrow> int option" where
  "parse_exponent s =
     (case s of
        [] \<Rightarrow> Some 0
      | c # r \<Rightarrow>
          if lower c = CHR ''e'' then
            (let neg = (case r of [] \<Rightarrow> False | h # t \<Rightarrow> h = CHR ''-'');
                 ds = (case r of
                         [] \<Rightarrow> []
                       | h # t \<Rightarrow> if h = CHR ''+'' \<or> h = CHR ''-'' then t else r)
             in if ds \<noteq> [] \<and> list_all is_digit ds
                then Some (if neg then - int_of_digits ds else int_of_digits ds)
                else None)
          else None)"

text \<open>
  An unsigned float literal \<open>[digits] [. [digits]] [exponent]\<close> with a digit in the
  significand: the significand as an integer and the decimal exponent.
\<close>

definition parse_number :: "string \<Rightarrow> (int \<times> int) option" where
  "parse_number s =
     (let ip = takeWhile is_digit s;
          r = dropWhile is_digit s;
          fp = (case r of [] \<Rightarrow> [] | h # t \<Rightarrow> if h = CHR ''.'' then takeWhile is_digit t else []);
          r2 = (case r of [] \<Rightarrow> [] | h # t \<Rightarrow> if h = CHR ''.'' then dropWhile is_digit t else r)
      in if ip = [] \<and> fp = [] then None
         else (case parse_exponent r2 of
                 None \<Rightarrow> None
               | Some x \<Rightarrow> Some (int_of_digits (ip @ fp), x - int (length fp))))"

text \<open>An unsigned float literal, \<open>inf\<close>, \<open>infinity\<close> or \<open>nan\<close> (in any case).\<close>

definition parse_abs_float :: "bool \<Rightarrow> string \<Rightarrow> pyfloat option" where
  "parse_abs_float neg s =
     (if map lower s = ''inf'' \<or> map lower s = ''infinity'' then Some (if neg then NInf else PInf)
      else if map lower s = ''nan'' then Some NaN
      else (case parse_number s of
              None \<Rightarrow> None
            | Some (m, x) \<Rightarrow> Some (round_double neg m x)))"

text \<open>
  Underscores in a numeric literal: each stands between two digits; they are then
  dropped.
\<close>

fun underscores_ok :: "char \<Rightarrow> string \<Rightarrow> bool" where
  "underscores_ok prev [] = (prev \<noteq> CHR ''_'')"
| "underscores_ok prev (c # cs) =
     ((if c = CHR ''_'' then is_digit prev
       else if prev = CHR ''_'' then is_digit c else True)
      \<and> underscores_ok c cs)"

text \<open>The white space \<open>float()\<close> ignores around the literal.\<close>

definition is_float_space :: "char \<Rightarrow> bool" where
  "is_float_space c =
     (let n = (of_char c :: nat) in (9 \<le> n \<and> n \<le> 13) \<or> n = 32 \<or> n = 133 \<or> n = 160)"

text \<open>A float literal with its sign, white space and underscores taken off.\<close>

definition parse_float :: "string \<Rightarrow> pyfloat option" where
  "parse_float s =
     (let t = rev (dropWhile is_float_space (rev (dropWhile is_float_space s)))
      in if \<not> underscores_ok (CHR 0x00) t then None
         else
           (let u = filter (\<lambda>c. c \<noteq> CHR ''_'') t
            in case u of
                 [] \<Rightarrow> None
               | h # r \<Rightarrow>
                   if h = CHR ''-'' then parse_abs_float True r
                   else if h = CHR ''+'' then parse_abs_float False r
                   else parse_abs_float False u))"

text \<open>\<open>float(s)\<close> for a \<open>str\<close>.\<close>

definition py_float :: "string \<Rightarrow> py_exn + pyfloat" where
  "py_float s = (case parse_float s of None \<Rightarrow> Inl (float_error s) | Some x \<Rightarrow> Inr x)"

text \<open>\<open>int(x)\<close> for a \<open>float\<close>: truncation towards zero.\<close>

definition py_int :: "pyfloat \<Rightarrow> py_exn + int" where
  "py_int x =
     (case x of
        Finite q \<Rightarrow> Inr (if 0 \<le> q then \<lfloor>q\<rfloor> else \<lceil>q\<rceil>)
      | PInf \<Rightarrow> Inl (OverflowError ''cannot convert float infinity to integer'')
      | NInf \<Rightarrow> Inl (OverflowError ''cannot convert float infinity to integer'')
      | NaN \<Rightarrow> Inl (ValueError ''cannot convert float NaN to integer''))"

section \<open>The regular expressions of the parser\<close>

text \<open>
  \<open>Label:\s*([\d\.]+)\<close> at the start of \<open>s\<close>: the captured token and the text after the
  match. White space and the characters of the token are disjoint classes, so the greedy
  \<open>\s*\<close> never gives a character back.
\<close>

definition match_number :: "string \<Rightarrow> string \<Rightarrow> (string \<times> string) option" where
  "match_number lbl s =
     (if starts_with (lbl @ '':'') s then
        (let r = dropWhile is_space (drop (length lbl + 1) s)
         in if takeWhile is_numch r = [] then None
            else Some (takeWhile is_numch r, dropWhile is_numch r))
      else None)"

text \<open>\<open>re.search(r'Label:\s*([\d\.]+)', s)\<close>: \<open>group(1)\<close> of the leftmost match.\<close>

fun search_number :: "string \<Rightarrow> string \<Rightarrow> string option" where
  "search_number lbl [] = None"
| "search_number lbl (c # cs) =
     (case match_number lbl (c # cs) of
        Some (tok, rest) \<Rightarrow> Some tok
      | None \<Rightarrow> search_number lbl cs)"

text \<open>The alternation \<open>(A|B|C)\<close>: the first label of the list that matches here.\<close>

fun match_number_any :: "string list \<Rightarrow> string \<Rightarrow> (string \<times> string) option" where
  "match_number_any [] s = None"
| "match_number_any (lbl # lbls) s =
     (case match_number lbl s of
        Some m \<Rightarrow> Some m
      | None \<Rightarrow> match_number_any lbls s)"

definition analysis_labels :: "string list" where
  "analysis_labels = [''Target_Tonase_Ekstrak'', ''Prediksi_Kontrol'', ''Selisih_Kontrol'']"

lemma match_number_length:
  assumes "match_number lbl s = Some (tok, rest)"
  shows "length rest < length s"
proof -
  from assms have sw: "starts_with (lbl @ '':'') s"
    and rest: "rest = dropWhile is_numch (dropWhile is_space (drop (length lbl + 1) s))"
    by (auto simp: match_number_def Let_def split: if_splits)
  have "length rest \<le> length (drop (length lbl + 1) s)"
    unfolding rest
    by (rule order_trans [OF length_dropWhile_le length_dropWhile_le])
  moreover from starts_with_length [OF sw] have "length lbl + 1 \<le> length s" by simp
  ultimately show ?thesis by simp
qed

lemma match_number_any_length:
  "match_number_any lbls s = Some (tok, rest) \<Longrightarrow> length rest < length s"
  by (induction lbls) (auto split: option.splits dest: match_number_length)

text \<open>
  \<open>re.sub(r'(Target_Tonase_Ekstrak|Prediksi_Kontrol|Selisih_Kontrol):\s*[\d\.]+', '', s)\<close>:
  every non-overlapping match, from the left, is deleted.
\<close>

function sub_labels :: "string \<Rightarrow> string" where
  "sub_labels [] = []"
| "sub_labels (c # cs) =
     (case match_number_any analysis_labels (c # cs) of
        Some (tok, rest) \<Rightarrow> sub_labels rest
      | None \<Rightarrow> c # sub_labels cs)"
  by pat_completeness auto
termination
  by (relation "measure length") (auto dest: match_number_any_length)

text \<open>
  \<open>Rekomendasi \d: (.*)\<close> at the start of \<open>s\<close>: the captured rest of the line (\<open>.\<close> is any
  character but the newline).
\<close>

definition match_title :: "string \<Rightarrow> string option" where
  "match_title s =
     (if starts_with ''Rekomendasi '' s then
        (case drop 12 s of
           d # c1 # c2 # r \<Rightarrow>
             if is_digit d \<and> c1 = CHR '':'' \<and> c2 = CHR '' ''
             then Some (takeWhile (\<lambda>c. c \<noteq> newline) r)
             else None
         | _ \<Rightarrow> None)
      else None)"

text \<open>\<open>re.search(r'Rekomendasi \d: (.*)', s)\<close>: \<open>group(1)\<close> of the leftmost match.\<close>

fun search_title :: "string \<Rightarrow> string option" where
  "search_title [] = None"
| "search_title (c # cs) =
     (case match_title (c # cs) of
        Some t \<Rightarrow> Some t
      | None \<Rightarrow> search_title cs)"

text \<open>
  \<open>Key:\s*([^\n]+)\<close> at the start of \<open>s\<close>: the captured value and the text after the match.
  The greedy \<open>\s*\<close> takes all the white space, newlines too. When a character follows, it
  is not white space and the value runs from it to the end of its line. When the string
  ends there, \<open>\s*\<close> gives characters back until one that is not a newline is found: the
  value is that character.
\<close>

definition match_param :: "string \<Rightarrow> string \<Rightarrow> (string \<times> string) option" where
  "match_param key s =
     (if starts_with (key @ '':'') s then
        (let r = drop (length key + 1) s;
             t = dropWhile is_space r
         in if t \<noteq> [] then
              Some (takeWhile (\<lambda>c. c \<noteq> newline) t, dropWhile (\<lambda>c. c \<noteq> newline) t)
            else
              (let w = rev (dropWhile (\<lambda>c. c = newline) (rev r))
               in if w = [] then None else Some ([last w], drop (length w) r)))
      else None)"

text \<open>
  The alternation \<open>(Truk|Ekskavator|Operator|Cuaca|Prediksi|Selisih|Alasan)\<close>: the first key
  that matches here, with the value and the text after the match.
\<close>

fun match_param_any :: "string list \<Rightarrow> string \<Rightarrow> (string \<times> string \<times> string) option" where
  "match_param_any [] s = None"
| "match_param_any (key # keys) s =
     (case match_param key s of
        Some (v, rest) \<Rightarrow> Some (key, v, rest)
      | None \<Rightarrow> match_param_any keys s)"

definition param_labels :: "string list" where
  "param_labels =
     [''Truk'', ''Ekskavator'', ''Operator'', ''Cuaca'', ''Prediksi'', ''Selisih'', ''Alasan'']"

lemma match_param_length:
  assumes "match_param key s = Some (v, rest)"
  shows "length rest < length s"
proof -
  from assms have sw: "starts_with (key @ '':'') s"
    by (auto simp: match_param_def split: if_splits)
  from starts_with_length [OF sw] have len: "length key + 1 \<le> length s" by simp
  define r where "r = drop (length key + 1) s"
  have "length rest \<le> length r"
  proof (cases "dropWhile is_space r = []")
    case True
    with assms sw have "rest = drop (length (rev (dropWhile (\<lambda>c. c = newline) (rev r)))) r"
      by (auto simp: match_param_def Let_def r_def split: if_splits)
    then show ?thesis by simp
  next
    case False
    with assms sw have "rest = dropWhile (\<lambda>c. c \<noteq> newline) (dropWhile is_space r)"
      by (auto simp: match_param_def Let_def r_def split: if_splits)
    then show ?thesis
      by (simp add: order_trans [OF length_dropWhile_le length_dropWhile_le])
  qed
  with len show ?thesis by (simp add: r_def)
qed

lemma match_param_any_length:
  "match_param_any keys s = Some (k, v, rest) \<Longrightarrow> length rest < length s"
  by (induction keys) (auto split: option.splits dest: match_param_length)

text \<open>
  \<open>re.findall(r'(Truk|Ekskavator|Operator|Cuaca|Prediksi|Selisih|Alasan):\s*([^\n]+)', s)\<close>:
  the (key, value) pairs of the non-overlapping matches, from the left.
\<close>

function findall_params :: "string \<Rightarrow> (string \<times> string) list" where
  "findall_params [] = []"
| "findall_params (c # cs) =
     (case match_param_any param_labels (c # cs) of
        Some (k, v, rest) \<Rightarrow> (k, v) # findall_params rest
      | None \<Rightarrow> findall_params cs)"
  by pat_completeness auto
termination
  by (relation "measure length") (auto dest: match_param_any_length)

section \<open>The response parser\<close>

text \<open>
  The values of a recommendation's dictionary are strings, integers or floats. The
  dictionary keeps its keys in the order of their first insertion, as a Python \<open>dict\<close>
  does: \<open>AList.update\<close> replaces the value of a key that is there and appends a new one.
\<close>

datatype pyval = PStr string | PInt int | PFloat pyfloat

type_synonym pydict = "(string \<times> pyval) list"

text \<open>\<open>mapping.get(key)\<close>\<close>

definition mapping :: "string \<Rightarrow> string option" where
  "mapping key =
     map_of
       [(''Truk'', ''trucks''), (''Ekskavator'', ''excavators''), (''Operator'', ''operators''),
        (''Cuaca'', ''weather''), (''Prediksi'', ''predicted_tonnage''),
        (''Selisih'', ''difference_from_target''), (''Alasan'', ''rationale'')] key"

text \<open>\<open>int(float(s))\<close>\<close>

definition py_int_float :: "string \<Rightarrow> py_exn + int" where
  "py_int_float s = (case py_float s of Inl e \<Rightarrow> Inl e | Inr x \<Rightarrow> py_int x)"

text \<open>
  The \<open>try\<close> of the loop over the parameters: the converted value of a field, the cleaned
  string when the conversion raises \<open>ValueError\<close>. Any other exception leaves the function.
\<close>

definition convert_value :: "string \<Rightarrow> string \<Rightarrow> py_exn + pyval" where
  "convert_value python_key cleaned_value =
     (if python_key \<in> set [''trucks'', ''excavators'', ''operators''] then
        (case py_int_float cleaned_value of
           Inr i \<Rightarrow> Inr (PInt i)
         | Inl e \<Rightarrow>
             (case e of ValueError m \<Rightarrow> Inr (PStr cleaned_value) | OverflowError m \<Rightarrow> Inl e))
      else if python_key \<in> set [''predicted_tonnage'', ''difference_from_target''] then
        (case py_float cleaned_value of
           Inr x \<Rightarrow> Inr (PFloat x)
         | Inl e \<Rightarrow>
             (case e of ValueError m \<Rightarrow> Inr (PStr cleaned_value) | OverflowError m \<Rightarrow> Inl e))
      else Inr (PStr cleaned_value))"

text \<open>\<open>value.replace('Ton', '').replace(',', '').strip()\<close>\<close>

definition clean_value :: "string \<Rightarrow> string" where
  "clean_value v = strip (remove_all '','' (remove_all ''Ton'' v))"

text \<open>The loop \<open>for key, value in params\<close>.\<close>

fun apply_params :: "(string \<times> string) list \<Rightarrow> pydict \<Rightarrow> py_exn + pydict" where
  "apply_params [] data = Inr data"
| "apply_params ((key, v) # params) data =
     (case mapping key of
        None \<Rightarrow> apply_params params data
      | Some python_key \<Rightarrow>
          (case convert_value python_key (clean_value v) of
             Inl e \<Rightarrow> Inl e
           | Inr x \<Rightarrow> apply_params params (AList.update python_key x data)))"

definition default_title :: string where
  "default_title = ''Rekomendasi Tanpa Judul''"

definition default_rationale :: string where
  "default_rationale = ''Alasan tidak tersedia (Gagal parsing).''"

text \<open>
  The body of the loop over the blocks, for a stripped, non-empty block: the dictionary
  \<open>data\<close> as it stands when its length is tested.
\<close>

definition parse_block :: "string \<Rightarrow> py_exn + pydict" where
  "parse_block rec_block =
     (let title = (case search_title rec_block of
                     Some t \<Rightarrow> strip t
                   | None \<Rightarrow> default_title)
      in case apply_params (findall_params rec_block) [(''title'', PStr title)] of
           Inl e \<Rightarrow> Inl e
         | Inr data \<Rightarrow>
             Inr (if map_of data ''rationale'' = None
                  then AList.update ''rationale'' (PStr default_rationale) data
                  else data))"

text \<open>The loop \<open>for rec_block in recs_list\<close>, with \<open>recommendations_data\<close> as accumulator.\<close>

fun parse_blocks :: "string list \<Rightarrow> pydict list \<Rightarrow> py_exn + pydict list" where
  "parse_blocks [] recommendations_data = Inr recommendations_data"
| "parse_blocks (rec_block # recs_list) recommendations_data =
     (if strip rec_block = [] then parse_blocks recs_list recommendations_data
      else (case parse_block (strip rec_block) of
              Inl e \<Rightarrow> Inl e
            | Inr data \<Rightarrow>
                if length data > 1
                then parse_blocks recs_list (recommendations_data @ [data])
                else parse_blocks recs_list recommendations_data))"

text \<open>
  The \<open>try\<close> over the three numbers of the analysis, in the order the source evaluates
  them; a field whose pattern did not match is \<open>0\<close>.
\<close>

definition analysis_numbers :: "string \<Rightarrow> py_exn + (pyfloat \<times> int \<times> pyfloat)" where
  "analysis_numbers analysis_part =
     (case (case search_number ''Prediksi_Kontrol'' analysis_part of
              Some t \<Rightarrow> py_float t
            | None \<Rightarrow> Inr (Finite 0)) of
        Inl e \<Rightarrow> Inl e
      | Inr initial_prediction \<Rightarrow>
          (case (case search_number ''Target_Tonase_Ekstrak'' analysis_part of
                   Some t \<Rightarrow> py_int_float t
                 | None \<Rightarrow> Inr 0) of
             Inl e \<Rightarrow> Inl e
           | Inr target_tonnage \<Rightarrow>
               (case (case search_number ''Selisih_Kontrol'' analysis_part of
                        Some t \<Rightarrow> py_float t
                      | None \<Rightarrow> Inr (Finite 0)) of
                  Inl e \<Rightarrow> Inl e
                | Inr initial_difference \<Rightarrow>
                    Inr (initial_prediction, target_tonnage, initial_difference))))"

text \<open>
  The error dictionaries the parser returns: the missing delimiter, a number of the
  analysis that could not be converted (with the exception caught) and the missing target
  or prediction.
\<close>

datatype parse_error = MalformedFormat | NumericParse py_exn | IncompleteAnalysis

text \<open>The text under the key \<open>error\<close>.\<close>

fun error_text :: "parse_error \<Rightarrow> string" where
  "error_text MalformedFormat =
     ''Format respons Agent tidak valid: Tag END_ANALYSIS tidak ditemukan.''"
| "error_text (NumericParse e) =
     ''Gagal mengurai nilai numerik dari analisis awal. Error: '' @ exn_text e"
| "error_text IncompleteAnalysis =
     ''Parsing gagal mendapatkan Target Tonase atau Prediksi Kontrol.''"

record analysis =
  initial_analysis_text :: string
  initial_prediction :: pyfloat
  target_tonnage :: int
  initial_difference :: pyfloat
  recommendations :: "pydict list"

text \<open>
  What a call of the parser does: it raises, it returns a dictionary with the key
  \<open>error\<close>, or it returns the five fields.
\<close>

datatype parse_result = Raises py_exn | Error parse_error | Parsed analysis

definition END_ANALYSIS :: string where
  "END_ANALYSIS = ''---END_ANALYSIS---''"

definition START_RECOMMENDATION :: string where
  "START_RECOMMENDATION = ''---START_RECOMMENDATION---''"

text \<open>\<open>s.split(p, 1)\<close>\<close>

definition split1 :: "string \<Rightarrow> string \<Rightarrow> string list" where
  "split1 p s = (case find_sub p s of None \<Rightarrow> [s] | Some (b, a) \<Rightarrow> [b, a])"

definition parse_agent_response :: "string \<Rightarrow> parse_result" where
  "parse_agent_response text =
     (if \<not> contains END_ANALYSIS text then Error MalformedFormat
      else
        (case split1 END_ANALYSIS text of
           [analysis_part, recs_raw] \<Rightarrow>
             (case analysis_numbers analysis_part of
                Inl e \<Rightarrow> Error (NumericParse e)
              | Inr (pred, target, diff) \<Rightarrow>
                  (case parse_blocks (split_on START_RECOMMENDATION recs_raw) [] of
                     Inl e \<Rightarrow> Raises e
                   | Inr recommendations_data \<Rightarrow>
                       if target = 0 \<or> pred = Finite 0 then Error IncompleteAnalysis
                       else
                         Parsed
                           \<lparr>initial_analysis_text = strip (sub_labels analysis_part),
                            initial_prediction = pred,
                            target_tonnage = target,
                            initial_difference = diff,
                            recommendations = recommendations_data\<rparr>))
         | _ \<Rightarrow> Raises (ValueError ''not enough values to unpack (expected 2, got 1)'')))"

section \<open>The prediction tool\<close>

text \<open>
  The loaded model is its \<open>predict\<close> method: one prediction for each scenario, or the text
  of the exception it raises. \<open>round(target, 2)\<close> is a parameter. A tool call returns a
  text; the list behind \<open>PREDICTION_RESULTS:\<close> is kept as a list of records.
\<close>

type_synonym model = "pyval list list \<Rightarrow> string + pyfloat list"

record prediction =
  pred_id :: nat
  pred_trucks :: pyval
  pred_excavators :: pyval
  pred_operators :: pyval
  pred_weather :: pyval
  pred_predicted_tonnage :: pyfloat

datatype tool_output = ToolText string | PredictionResults "prediction list"

text \<open>
  The loop over \<open>enumerate(zip(scenarios, predictions))\<close>, from the index \<open>i\<close>; \<open>None\<close> when
  a scenario has fewer than four entries (\<open>IndexError\<close>).
\<close>

fun prediction_results ::
  "(pyfloat \<Rightarrow> pyfloat) \<Rightarrow> nat \<Rightarrow> (pyval list \<times> pyfloat) list \<Rightarrow> prediction list option"
where
  "prediction_results round2 i [] = Some []"
| "prediction_results round2 i ((input_data, target) # rest) =
     (case input_data of
        x0 # x1 # x2 # x3 # xs \<Rightarrow>
          (case prediction_results round2 (i + 1) rest of
             None \<Rightarrow> None
           | Some results \<Rightarrow>
               Some (\<lparr>pred_id = i + 1, pred_trucks = x0, pred_excavators = x1, pred_operators = x2,
                      pred_weather = x3, pred_predicted_tonnage = round2 target\<rparr> # results))
      | _ \<Rightarrow> None)"

definition prediction_error :: "string \<Rightarrow> string" where
  "prediction_error e =
     ''ERROR saat menjalankan prediksi: '' @ e @ ''. Pastikan dimensi input model benar.''"

definition predict_mining_target ::
  "model option \<Rightarrow> (pyfloat \<Rightarrow> pyfloat) \<Rightarrow> pyval list list \<Rightarrow> tool_output"
where
  "predict_mining_target loaded_model round2 scenarios =
     (case loaded_model of
        None \<Rightarrow> ToolText ''ERROR: Model prediksi belum dimuat atau gagal dimuat.''
      | Some predict \<Rightarrow>
          if scenarios = [] then ToolText ''ERROR: Input skenario kosong.''
          else
            (case predict scenarios of
               Inl e \<Rightarrow> ToolText (prediction_error e)
             | Inr predictions \<Rightarrow>
                 (case prediction_results round2 0 (zip scenarios predictions) of
                    None \<Rightarrow> ToolText (prediction_error ''list index out of range'')
                  | Some results \<Rightarrow> PredictionResults results)))"

section \<open>The request orchestrator\<close>

text \<open>
  The global state of the module: the agent, the API key of the environment and the
  loaded model.
\<close>

record 'a env =
  mining_agent :: "'a option"
  GEMINI_API_KEY :: "string option"
  loaded_model :: "model option"

text \<open>The events of the agent's stream, as far as the orchestrator reads them.\<close>

record part =
  part_text :: "string option"

record content =
  content_parts :: "part list option"

record event =
  is_final_response :: bool
  event_content :: "content option"

text \<open>
  The collaborators: the session service and the runner of the agent development kit.
  \<open>create_session\<close> and \<open>delete_session\<close> take the store, the application name, the user
  id and the session id; they give the new store and whether they raised. \<open>run_async\<close>
  takes the agent, the tool the agent was built with, the store, the user id, the session
  id and the query; it gives the events it yields, the text of the exception that ends the
  stream if one does, and the new store.
\<close>

record ('a, 's) adk =
  create_session :: "'s \<Rightarrow> string \<Rightarrow> string \<Rightarrow> string \<Rightarrow> 's \<times> bool"
  delete_session :: "'s \<Rightarrow> string \<Rightarrow> string \<Rightarrow> string \<Rightarrow> 's \<times> bool"
  run_async ::
    "'a \<Rightarrow> (pyval list list \<Rightarrow> tool_output) \<Rightarrow> 's \<Rightarrow> string \<Rightarrow> string \<Rightarrow> string
       \<Rightarrow> (event list \<times> string option) \<times> 's"

record mining_input =
  user_id :: string
  query :: string

text \<open>What an endpoint does: it raises an \<open>HTTPException\<close> or it returns a body.\<close>

datatype 'r http = HTTPException nat string | Response 'r

definition APP_NAME :: string where
  "APP_NAME = ''agents''"

text \<open>
  The loop \<open>for part in event.content.parts\<close>: the text it appends, that of the first part
  whose text is not empty (the loop ends there).
\<close>

fun first_part_text :: "part list \<Rightarrow> string" where
  "first_part_text [] = []"
| "first_part_text (p # ps) =
     (case part_text p of
        None \<Rightarrow> first_part_text ps
      | Some t \<Rightarrow> if t \<noteq> [] then t else first_part_text ps)"

text \<open>The loop over the events, with \<open>final_response_text\<close> as accumulator.\<close>

fun collect_response :: "event list \<Rightarrow> string \<Rightarrow> string" where
  "collect_response [] final_response_text = final_response_text"
| "collect_response (ev # evs) final_response_text =
     (if is_final_response ev then
        (case event_content ev of
           None \<Rightarrow> collect_response evs final_response_text
         | Some c \<Rightarrow>
             (case content_parts c of
                None \<Rightarrow> collect_response evs final_response_text
              | Some ps \<Rightarrow>
                  if ps = [] then collect_response evs final_response_text
                  else collect_response evs (final_response_text @ first_part_text ps)))
      else collect_response evs final_response_text)"

definition agent_failure :: "string \<Rightarrow> 'r http" where
  "agent_failure e = HTTPException 500 (''Kesalahan pada layanan Agent: '' @ e)"

text \<open>
  The endpoint \<open>/predict_and_recommend\<close>. The construction of the response model, with its
  validation of the parsed dictionary, is the parameter \<open>response_model\<close>: the body, or the
  text of the validation error.
\<close>

definition predict_and_recommend ::
  "'a env \<Rightarrow> ('a, 's) adk \<Rightarrow> (pyfloat \<Rightarrow> pyfloat) \<Rightarrow> (analysis \<Rightarrow> string + 'r)
     \<Rightarrow> 's \<Rightarrow> mining_input \<Rightarrow> 'r http \<times> 's"
where
  "predict_and_recommend env kit round2 response_model store data =
     (case mining_agent env of
        None \<Rightarrow> (HTTPException 503 ''Layanan Agent atau Kunci API tidak tersedia.'', store)
      | Some agent \<Rightarrow>
          if GEMINI_API_KEY env = None
          then (HTTPException 503 ''Layanan Agent atau Kunci API tidak tersedia.'', store)
          else
            (let session_id = ''session_'' @ user_id data;
                 store1 = fst (create_session kit store APP_NAME (user_id data) session_id);
                 ran = run_async kit agent (predict_mining_target (loaded_model env) round2)
                         store1 (user_id data) session_id (query data);
                 final_response_text = collect_response (fst (fst ran)) [];
                 store2 = snd ran
             in case snd (fst ran) of
                  Some e \<Rightarrow> (agent_failure e, store2)
                | None \<Rightarrow>
                    if final_response_text = []
                    then (agent_failure ''Agent tidak menghasilkan respons akhir yang valid.'',
                          store2)
                    else
                      (case parse_agent_response final_response_text of
                         Raises e \<Rightarrow> (agent_failure (exn_text e), store2)
                       | Error err \<Rightarrow>
                           (agent_failure (''Gagal mem-parsing output Agent: '' @ error_text err),
                            store2)
                       | Parsed parsed_data \<Rightarrow>
                           (case response_model parsed_data of
                              Inl e \<Rightarrow> (agent_failure e, store2)
                            | Inr body \<Rightarrow> (Response body, store2)))))"

text \<open>The endpoint \<open>/end_session/{user_id}\<close>.\<close>

record status_message =
  status :: string
  message :: string

definition end_session ::
  "('a, 's) adk \<Rightarrow> 's \<Rightarrow> string \<Rightarrow> status_message http \<times> 's"
where
  "end_session kit store uid =
     (let session_id = ''session_'' @ uid;
          deleted = delete_session kit store APP_NAME uid session_id
      in if \<not> snd deleted then
           (Response \<lparr>status = ''success'',
                      message = ''Sesi untuk user_id '' @ [CHR 0x27] @ uid @ [CHR 0x27]
                                @ '' berhasil diakhiri.''\<rparr>,
            fst deleted)
         else
           (Response \<lparr>status = ''info'',
                      message = ''Sesi untuk user_id '' @ [CHR 0x27] @ uid @ [CHR 0x27]
                                @ '' tidak ditemukan atau sudah berakhir.''\<rparr>,
            fst deleted))"

section \<open>The notions and the inputs of the statements\<close>

definition three_dots_example :: string where
  "three_dots_example =
     ''Target_Tonase_Ekstrak: 80\<newline>Prediksi_Kontrol: 1.2.3\<newline>---END_ANALYSIS---''"

definition lone_dot_example :: string where
  "lone_dot_example =
     ''Target_Tonase_Ekstrak: 80\<newline>Prediksi_Kontrol: 75.5\<newline>Selisih_Kontrol: .\<newline>---END_ANALYSIS---''"

definition title_only_example :: string where
  "title_only_example =
     ''Target_Tonase_Ekstrak: 80\<newline>Prediksi_Kontrol: 75.5\<newline>---END_ANALYSIS---\<newline>Rekomendasi 1: Tambah Truk''"

definition infinite_trucks_example :: string where
  "infinite_trucks_example =
     ''Target_Tonase_Ekstrak: 80\<newline>Prediksi_Kontrol: 75.5\<newline>---END_ANALYSIS---\<newline>Rekomendasi 1: Tambah Truk\<newline>Truk: inf''"

definition spec_example :: string where
  "spec_example =
     ''Kontrol baik.\<newline>Target_Tonase_Ekstrak: 80\<newline>Prediksi_Kontrol: 75.50\<newline>Selisih_Kontrol: 4.50\<newline>---END_ANALYSIS---\<newline>Rekomendasi 1: Tambah Truk\<newline>Truk: 14\<newline>Ekskavator: 3\<newline>Operator: 18\<newline>Cuaca: 1\<newline>Prediksi: 79.80\<newline>Selisih: 0.20\<newline>Alasan: Penambahan truk mendekati target.\<newline>---START_RECOMMENDATION---''"

definition no_delimiter_example :: string where
  "no_delimiter_example = ''Prediksi_Kontrol: 75.5''"

definition bad_number_example :: string where
  "bad_number_example = ''Prediksi_Kontrol: 1.2.3\<newline>---END_ANALYSIS---''"

definition no_target_example :: string where
  "no_target_example =
     ''Prediksi_Kontrol: 75.5\<newline>---END_ANALYSIS---\<newline>Rekomendasi 1: Tambah Truk\<newline>Truk: 14\<newline>Alasan: Baik.''"

text \<open>The texts of the parts that have one, in order.\<close>

definition part_texts :: "part list \<Rightarrow> string list" where
  "part_texts ps =
     filter (\<lambda>t. t \<noteq> []) (map (\<lambda>p. case part_text p of None \<Rightarrow> [] | Some t \<Rightarrow> t) ps)"

text \<open>The parts of an event the orchestrator reads: those of a final event with content.\<close>

definition final_parts :: "event \<Rightarrow> part list" where
  "final_parts ev =
     (if is_final_response ev then
        (case event_content ev of
           None \<Rightarrow> []
         | Some c \<Rightarrow> (case content_parts c of None \<Rightarrow> [] | Some ps \<Rightarrow> ps))
      else [])"

definition two_parts_event :: event where
  "two_parts_event =
     \<lparr>is_final_response = True,
      event_content =
        Some \<lparr>content_parts =
                Some [\<lparr>part_text = Some ''Kontrol baik.''\<rparr>,
                      \<lparr>part_text = Some ''Target_Tonase_Ekstrak: 80''\<rparr>]\<rparr>\<rparr>"

definition unavailable :: string where
  "unavailable = ''Layanan Agent atau Kunci API tidak tersedia.''"

definition model_not_loaded :: string where
  "model_not_loaded = ''ERROR: Model prediksi belum dimuat atau gagal dimuat.''"

text \<open>
  An environment with the agent and the key and without the model, and two agents: one
  answers with a fixed text in the strict format, the other calls the tool on one scenario
  and answers with the text of the tool when it is an error.
\<close>

definition unloaded_env :: "unit env" where
  "unloaded_env = \<lparr>mining_agent = Some (), GEMINI_API_KEY = Some ''key'', loaded_model = None\<rparr>"

definition no_agent_env :: "unit env" where
  "no_agent_env =
     \<lparr>mining_agent = None, GEMINI_API_KEY = Some ''key'',
      loaded_model = Some (\<lambda>scenarios. Inr (map (\<lambda>s. Finite 80) scenarios))\<rparr>"

definition final_text_event :: "string \<Rightarrow> event" where
  "final_text_event t =
     \<lparr>is_final_response = True,
      event_content = Some \<lparr>content_parts = Some [\<lparr>part_text = Some t\<rparr>]\<rparr>\<rparr>"

definition fixed_kit :: "(unit, unit) adk" where
  "fixed_kit =
     \<lparr>create_session = (\<lambda>store app uid sid. (store, False)),
      delete_session = (\<lambda>store app uid sid. (store, False)),
      run_async = (\<lambda>agent tool store uid sid q.
        (([final_text_event ''Target_Tonase_Ekstrak: 80 Prediksi_Kontrol: 75.5 ---END_ANALYSIS---''],
          None), store))\<rparr>"

definition tool_kit :: "(unit, unit) adk" where
  "tool_kit =
     \<lparr>create_session = (\<lambda>store app uid sid. (store, False)),
      delete_session = (\<lambda>store app uid sid. (store, False)),
      run_async = (\<lambda>agent tool store uid sid q.
        (([final_text_event
             (case tool [[PInt 12, PInt 3, PInt 18, PInt 1]] of
                ToolText e \<Rightarrow> e
              | PredictionResults rs \<Rightarrow>
                  ''Target_Tonase_Ekstrak: 80 Prediksi_Kontrol: 75.5 ---END_ANALYSIS---'')],
          None), store))\<rparr>"

definition example_request :: mining_input where
  "example_request = \<lparr>user_id = ''user_api_001'', query = ''Saya ingin 80 ton.''\<rparr>"

text \<open>
  A session service in memory, for the examples: the store is the list of the sessions
  (application, user id, session id). Deleting a session returns without an exception
  whether the session is in the store or not, as the deletion of the in-memory session
  service the module creates does.
\<close>

definition memory_kit :: "(unit, (string \<times> string \<times> string) list) adk" where
  "memory_kit =
     \<lparr>create_session = (\<lambda>store app uid sid.
        (if (app, uid, sid) \<in> set store then store else (app, uid, sid) # store,
         (app, uid, sid) \<in> set store)),
      delete_session = (\<lambda>store app uid sid. (removeAll (app, uid, sid) store, False)),
      run_async = (\<lambda>agent tool store uid sid q. (([], None), store))\<rparr>"

definition ended :: "string \<Rightarrow> string" where
  "ended uid = ''Sesi untuk user_id '' @ [CHR 0x27] @ uid @ [CHR 0x27] @ '' berhasil diakhiri.''"

definition not_found :: "string \<Rightarrow> string" where
  "not_found uid =
     ''Sesi untuk user_id '' @ [CHR 0x27] @ uid @ [CHR 0x27] @
     '' tidak ditemukan atau sudah berakhir.''"

section \<open>The strict response format\<close>

text \<open>
  The structured result and its recommendations, as the data model of the specification
  has them, and their rendering into the strict response format of the external
  interfaces: the analysis text, the three labelled numbers, the delimiter of the analysis
  and, for each recommendation, the numbered title, the seven labelled values and the
  delimiter of the recommendations, each on a line of its own. Integers are written in
  decimal; how a float is written is the parameter \<open>show_float\<close>.
\<close>

record recommendation =
  rec_title :: string
  rec_trucks :: int
  rec_excavators :: int
  rec_operators :: int
  rec_weather :: int
  rec_predicted_tonnage :: pyfloat
  rec_difference_from_target :: pyfloat
  rec_rationale :: string

record analysis_result =
  res_target_tonnage :: int
  res_initial_analysis_text :: string
  res_initial_prediction :: pyfloat
  res_initial_difference :: pyfloat
  res_recommendations :: "recommendation list"

definition digit_char :: "nat \<Rightarrow> char" where
  "digit_char k = char_of (48 + k)"

fun show_nat :: "nat \<Rightarrow> string" where
  "show_nat n = (if n < 10 then [digit_char n] else show_nat (n div 10) @ [digit_char (n mod 10)])"

declare show_nat.simps [simp del]

definition show_int :: "int \<Rightarrow> string" where
  "show_int i = (if i < 0 then CHR ''-'' # show_nat (nat (- i)) else show_nat (nat i))"

text \<open>A line \<open>Label: value\<close>.\<close>

definition line :: "string \<Rightarrow> string \<Rightarrow> string" where
  "line lbl v = lbl @ '': '' @ v"

text \<open>The line \<open>Rekomendasi i: title\<close>.\<close>

definition title_line :: "nat \<Rightarrow> string \<Rightarrow> string" where
  "title_line i t = line (''Rekomendasi '' @ show_nat i) t"

text \<open>The lines of the recommendation number \<open>i\<close>, without the newline of the last one.\<close>

definition render_block :: "(pyfloat \<Rightarrow> string) \<Rightarrow> nat \<Rightarrow> recommendation \<Rightarrow> string" where
  "render_block show_float i r =
     title_line i (rec_title r) @ [newline] @
     line ''Truk'' (show_int (rec_trucks r)) @ [newline] @
     line ''Ekskavator'' (show_int (rec_excavators r)) @ [newline] @
     line ''Operator'' (show_int (rec_operators r)) @ [newline] @
     line ''Cuaca'' (show_int (rec_weather r)) @ [newline] @
     line ''Prediksi'' (show_float (rec_predicted_tonnage r)) @ [newline] @
     line ''Selisih'' (show_float (rec_difference_from_target r)) @ [newline] @
     line ''Alasan'' (rec_rationale r)"

text \<open>The recommendations, numbered from \<open>i\<close>, each closed by the delimiter.\<close>

fun render_recommendations ::
  "(pyfloat \<Rightarrow> string) \<Rightarrow> nat \<Rightarrow> recommendation list \<Rightarrow> string"
where
  "render_recommendations show_float i [] = []"
| "render_recommendations show_float i (r # rs) =
     render_block show_float i r @ [newline] @ START_RECOMMENDATION @ [newline] @
     render_recommendations show_float (i + 1) rs"

text \<open>The analysis section, without the newline of its last line.\<close>

definition render_analysis :: "(pyfloat \<Rightarrow> string) \<Rightarrow> analysis_result \<Rightarrow> string" where
  "render_analysis show_float res =
     res_initial_analysis_text res @ [newline] @
     line ''Target_Tonase_Ekstrak'' (show_int (res_target_tonnage res)) @ [newline] @
     line ''Prediksi_Kontrol'' (show_float (res_initial_prediction res)) @ [newline] @
     line ''Selisih_Kontrol'' (show_float (res_initial_difference res))"

definition render :: "(pyfloat \<Rightarrow> string) \<Rightarrow> analysis_result \<Rightarrow> string" where
  "render show_float res =
     render_analysis show_float res @ [newline] @ END_ANALYSIS @ [newline] @
     render_recommendations show_float 1 (res_recommendations res)"

text \<open>The floats of the examples, written with two decimals.\<close>

definition example_show_float :: "pyfloat \<Rightarrow> string" where
  "example_show_float x =
     (if x = Finite (151 / 2) then ''75.50''
      else if x = Finite (9 / 2) then ''4.50''
      else if x = Finite (5615425785377587 / 70368744177664) then ''79.80''
      else if x = Finite (3602879701896397 / 18014398509481984) then ''0.20''
      else ''0.00'')"

definition example_recommendation :: recommendation where
  "example_recommendation =
     \<lparr>rec_title = ''Tambah Truk'', rec_trucks = 14, rec_excavators = 3, rec_operators = 18,
      rec_weather = 1,
      rec_predicted_tonnage = Finite (5615425785377587 / 70368744177664),
      rec_difference_from_target = Finite (3602879701896397 / 18014398509481984),
      rec_rationale = ''Penambahan truk mendekati target.''\<rparr>"

definition example_result :: analysis_result where
  "example_result =
     \<lparr>res_target_tonnage = 80, res_initial_analysis_text = ''Kontrol baik.'',
      res_initial_prediction = Finite (151 / 2), res_initial_difference = Finite (9 / 2),
      res_recommendations = [example_recommendation]\<rparr>"

definition negative_target_result :: analysis_result where
  "negative_target_result = example_result\<lparr>res_target_tonnage := - 80\<rparr>"

text \<open>
  A plain numeral is a non-empty text of digits and points; the decimal rendering of a
  natural number is one.
\<close>

definition plain_numeral :: "string \<Rightarrow> bool" where
  "plain_numeral v = (v \<noteq> [] \<and> list_all is_numch v)"

text \<open>
  A float is readable when it is written as a plain numeral that \<open>float()\<close> reads back as
  the same float.
\<close>

definition readable :: "(pyfloat \<Rightarrow> string) \<Rightarrow> pyfloat \<Rightarrow> bool" where
  "readable show_float x =
     (plain_numeral (show_float x) \<and> py_float (show_float x) = Inr x)"

text \<open>
  A recommendation is well formed when its trucks, excavators and operators are natural
  numbers below \<open>2 ^ 53\<close>, its weather is 0, 1 or 2, its two floats are readable, its title is
  one line without the delimiter of the recommendations and without a label of a
  parameter followed by a colon, and its rationale is one non-empty line without the
  delimiter that does not end in white space.
\<close>

definition well_formed_recommendation :: "(pyfloat \<Rightarrow> string) \<Rightarrow> recommendation \<Rightarrow> bool" where
  "well_formed_recommendation show_float r =
     (0 \<le> rec_trucks r \<and> rec_trucks r < 2 ^ 53 \<and>
      0 \<le> rec_excavators r \<and> rec_excavators r < 2 ^ 53 \<and>
      0 \<le> rec_operators r \<and> rec_operators r < 2 ^ 53 \<and>
      rec_weather r \<in> {0, 1, 2} \<and>
      readable show_float (rec_predicted_tonnage r) \<and>
      readable show_float (rec_difference_from_target r) \<and>
      newline \<notin> set (rec_title r) \<and>
      \<not> contains START_RECOMMENDATION (rec_title r) \<and>
      (\<forall>k \<in> set param_labels. \<not> contains (k @ '':'') (rec_title r)) \<and>
      rec_rationale r \<noteq> [] \<and>
      newline \<notin> set (rec_rationale r) \<and>
      \<not> is_space (last (rec_rationale r)) \<and>
      \<not> contains START_RECOMMENDATION (rec_rationale r))"

text \<open>
  A result is well formed when its target is a positive integer below \<open>2 ^ 53\<close>, its
  prediction is not zero, its prediction and difference are readable, its analysis text
  holds neither the delimiter of the analysis nor a label of the analysis followed by a
  colon, and its recommendations are well formed.
\<close>

definition well_formed :: "(pyfloat \<Rightarrow> string) \<Rightarrow> analysis_result \<Rightarrow> bool" where
  "well_formed show_float res =
     (0 < res_target_tonnage res \<and> res_target_tonnage res < 2 ^ 53 \<and>
      res_initial_prediction res \<noteq> Finite 0 \<and>
      readable show_float (res_initial_prediction res) \<and>
      readable show_float (res_initial_difference res) \<and>
      \<not> contains END_ANALYSIS (res_initial_analysis_text res) \<and>
      (\<forall>lbl \<in> set analysis_labels. \<not> contains (lbl @ '':'') (res_initial_analysis_text res)) \<and>
      list_all (well_formed_recommendation show_float) (res_recommendations res))"

text \<open>
  The dictionary the parser gives for a recommendation, with the title it read: the
  integers and the floats of the recommendation, its weather as a decimal string and its
  rationale cleaned.
\<close>

definition parsed_recommendation :: "string \<Rightarrow> recommendation \<Rightarrow> pydict" where
  "parsed_recommendation t r =
     [(''title'', PStr t),
      (''trucks'', PInt (rec_trucks r)),
      (''excavators'', PInt (rec_excavators r)),
      (''operators'', PInt (rec_operators r)),
      (''weather'', PStr (show_int (rec_weather r))),
      (''predicted_tonnage'', PFloat (rec_predicted_tonnage r)),
      (''difference_from_target'', PFloat (rec_difference_from_target r)),
      (''rationale'', PStr (clean_value (dropWhile is_space (rec_rationale r))))]"

text \<open>The title the parser reads in a block.\<close>

definition block_title :: "string \<Rightarrow> string" where
  "block_title rec_block =
     (case search_title rec_block of Some t \<Rightarrow> strip t | None \<Rightarrow> default_title)"

section \<open>Substrings\<close>

lemma find_sub_Some: "find_sub p s = Some (b, a) \<Longrightarrow> s = b @ p @ a"
proof (induction s arbitrary: b a)
  case Nil
  then show ?case by (simp split: if_splits)
next
  case (Cons c cs)
  show ?case
  proof (cases "starts_with p (c # cs)")
    case True
    then obtain r where r: "c # cs = p @ r" by (auto simp: starts_with_iff)
    from True Cons.prems have "b = []" and "a = drop (length p) (c # cs)" by auto
    with r show ?thesis by simp
  next
    case False
    with Cons.prems obtain b' where "find_sub p cs = Some (b', a)" and "b = c # b'"
      by (auto split: option.splits)
    with Cons.IH [of b' a] show ?thesis by simp
  qed
qed

lemma find_sub_append: "find_sub p (b @ p @ a) \<noteq> None"
proof (induction b)
  case Nil
  show ?case
  proof (cases "p @ a")
    case Nil
    then show ?thesis by simp
  next
    case (Cons c cs)
    have "starts_with p (p @ a)" by (rule starts_with_append)
    with Cons show ?thesis by simp
  qed
next
  case (Cons c b)
  then show ?case by (auto split: option.splits)
qed

lemma contains_iff: "contains p s \<longleftrightarrow> (\<exists>b a. s = b @ p @ a)"
proof
  assume "contains p s"
  then obtain b a where "find_sub p s = Some (b, a)" by (auto simp: contains_def)
  from find_sub_Some [OF this] show "\<exists>b a. s = b @ p @ a" by blast
next
  assume "\<exists>b a. s = b @ p @ a"
  then obtain b a where "s = b @ p @ a" by blast
  with find_sub_append [of p b a] show "contains p s" unfolding contains_def by simp
qed

section \<open>The parser after the delimiter check\<close>

text \<open>Once the delimiter is found, the parser is the rest of its body.\<close>

lemma parse_with_delimiter:
  assumes "find_sub END_ANALYSIS t = Some (ap, rr)"
  shows "parse_agent_response t =
     (case analysis_numbers ap of
        Inl e \<Rightarrow> Error (NumericParse e)
      | Inr (pred, target, diff) \<Rightarrow>
          (case parse_blocks (split_on START_RECOMMENDATION rr) [] of
             Inl e \<Rightarrow> Raises e
           | Inr recommendations_data \<Rightarrow>
               if target = 0 \<or> pred = Finite 0 then Error IncompleteAnalysis
               else
                 Parsed
                   \<lparr>initial_analysis_text = strip (sub_labels ap),
                    initial_prediction = pred,
                    target_tonnage = target,
                    initial_difference = diff,
                    recommendations = recommendations_data\<rparr>))"
  using assms by (simp add: parse_agent_response_def contains_def split1_def)

section \<open>The missing delimiter\<close>

text \<open>
  Claim C6. A text is answered with the error of the missing tag \<open>END_ANALYSIS\<close> exactly when
  \<open>---END_ANALYSIS---\<close> is not a substring of it: whatever else a text without the
  delimiter holds, the result is this error, and a text with the delimiter never gets it.
\<close>

theorem missing_delimiter:
  "parse_agent_response t = Error MalformedFormat \<longleftrightarrow> \<not> (\<exists>b a. t = b @ END_ANALYSIS @ a)"
proof (cases "find_sub END_ANALYSIS t")
  case None
  then have "\<not> contains END_ANALYSIS t" by (simp add: contains_def)
  then show ?thesis by (simp add: parse_agent_response_def contains_iff)
next
  case (Some m)
  then obtain ap rr where f: "find_sub END_ANALYSIS t = Some (ap, rr)" by (cases m) auto
  then have "contains END_ANALYSIS t" by (simp add: contains_def)
  moreover have "parse_agent_response t \<noteq> Error MalformedFormat"
    by (simp add: parse_with_delimiter [OF f] split: sum.splits prod.splits)
  ultimately show ?thesis by (simp add: contains_iff)
qed

theorem missing_delimiter_witness:
  "parse_agent_response ''Target_Tonase_Ekstrak: 80'' = Error MalformedFormat \<and>
   parse_agent_response ''Prediksi_Kontrol: 2---END_ANALYSIS---'' \<noteq> Error MalformedFormat"
proof -
  have "\<exists>b a. ''Prediksi_Kontrol: 2---END_ANALYSIS---'' = b @ END_ANALYSIS @ a"
    by (rule exI [of _ "''Prediksi_Kontrol: 2''"], rule exI [of _ "[]"]) (simp add: END_ANALYSIS_def)
  moreover have "\<not> contains END_ANALYSIS ''Target_Tonase_Ekstrak: 80''"
    by (simp add: contains_def END_ANALYSIS_def)
  ultimately show ?thesis
    using missing_delimiter [of "''Target_Tonase_Ekstrak: 80''"]
      missing_delimiter [of "''Prediksi_Kontrol: 2---END_ANALYSIS---''"]
    by (simp add: contains_iff)
qed

section \<open>The numbers of the analysis\<close>

lemma py_float_raises: "py_float s = Inl e \<Longrightarrow> e = float_error s"
  by (auto simp: py_float_def split: option.splits)

lemma search_number_contains: "search_number lbl s = Some tok \<Longrightarrow> contains lbl s"
proof (induction s)
  case Nil
  then show ?case by simp
next
  case (Cons c cs)
  show ?case
  proof (cases "match_number lbl (c # cs)")
    case None
    with Cons have "contains lbl cs" by simp
    then obtain b a where "cs = b @ lbl @ a" by (auto simp: contains_iff)
    then have "c # cs = (c # b) @ lbl @ a" by simp
    then show ?thesis unfolding contains_iff by blast
  next
    case (Some m)
    then have "starts_with (lbl @ '':'') (c # cs)"
      by (auto simp: match_number_def split: if_splits)
    then obtain r where "c # cs = [] @ lbl @ ('':'' @ r)" by (auto simp: starts_with_iff)
    then show ?thesis unfolding contains_iff by blast
  qed
qed

lemma analysis_numbers_target_absent:
  "analysis_numbers ap = Inr (pred, target, diff) \<Longrightarrow>
   search_number ''Target_Tonase_Ekstrak'' ap = None \<Longrightarrow> target = 0"
  by (auto simp: analysis_numbers_def split: sum.splits option.splits)

lemma analysis_numbers_prediction_absent:
  "analysis_numbers ap = Inr (pred, target, diff) \<Longrightarrow>
   search_number ''Prediksi_Kontrol'' ap = None \<Longrightarrow> pred = Finite 0"
  by (auto simp: analysis_numbers_def split: sum.splits option.splits)

lemma analysis_numbers_invalid:
  assumes "lbl \<in> set analysis_labels" and "search_number lbl ap = Some tok"
    and "py_float tok = Inl err"
  shows "\<exists>e. analysis_numbers ap = Inl e"
  using assms
  by (auto simp: analysis_numbers_def analysis_labels_def py_int_float_def
      split: sum.splits option.splits)

text \<open>
  Claim C10. Besides the missing delimiter and the missing target or prediction, the
  parser has a third error: in a text that holds the delimiter, when the pattern of one of
  the three labels of the analysis captures a token of digits and dots that \<open>float()\<close>
  rejects (such as \<open>1.2.3\<close> or a lone dot), the result is the error of the numeric values
  of the analysis, not a default of zero and not one of the two other errors.
\<close>

theorem numeric_parse_error:
  assumes "find_sub END_ANALYSIS t = Some (ap, rr)"
    and "lbl \<in> set analysis_labels"
    and "search_number lbl ap = Some tok"
    and "py_float tok = Inl err"
  shows "\<exists>e. parse_agent_response t = Error (NumericParse e)"
proof -
  from analysis_numbers_invalid [OF assms(2-4)] obtain e where "analysis_numbers ap = Inl e" ..
  then show ?thesis by (simp add: parse_with_delimiter [OF assms(1)])
qed

lemma three_dots_example_cut:
  "find_sub END_ANALYSIS three_dots_example =
     Some (''Target_Tonase_Ekstrak: 80\<newline>Prediksi_Kontrol: 1.2.3\<newline>'', [])"
  by code_simp

lemma three_dots_example_token:
  "search_number ''Prediksi_Kontrol''
     ''Target_Tonase_Ekstrak: 80\<newline>Prediksi_Kontrol: 1.2.3\<newline>'' = Some ''1.2.3''"
  by code_simp

lemma three_dots_invalid: "py_float ''1.2.3'' = Inl (float_error ''1.2.3'')"
  by code_simp

lemma lone_dot_result:
  "parse_agent_response lone_dot_example = Error (NumericParse (float_error ''.''))"
  by code_simp

text \<open>The text of the error, with the message of the exception.\<close>

lemma lone_dot_error_text:
  "error_text (NumericParse (float_error ''.'')) =
     ''Gagal mengurai nilai numerik dari analisis awal. Error: '' @
     ''could not convert string to float: '' @ [CHR 0x27] @ ''.'' @ [CHR 0x27]"
  by code_simp

theorem numeric_parse_error_witness:
  "(\<exists>e. parse_agent_response three_dots_example = Error (NumericParse e)) \<and>
   parse_agent_response lone_dot_example = Error (NumericParse (float_error ''.''))"
  using numeric_parse_error [OF three_dots_example_cut _ three_dots_example_token three_dots_invalid]
    lone_dot_result
  by (simp add: analysis_labels_def)

section \<open>The recommendation blocks\<close>

text \<open>The keys of a dictionary after the loop over the parameters.\<close>

lemma apply_params_keys:
  "apply_params params data = Inr data' \<Longrightarrow>
   fst ` set data' = fst ` set data \<union> {k. \<exists>key \<in> fst ` set params. mapping key = Some k}"
proof (induction params arbitrary: data)
  case Nil
  then show ?case by simp
next
  case (Cons p params)
  obtain key v where p: "p = (key, v)" by (cases p)
  show ?case
  proof (cases "mapping key")
    case None
    with Cons.prems p have "apply_params params data = Inr data'" by simp
    from Cons.IH [OF this] None p show ?thesis by auto
  next
    case (Some pk)
    with Cons.prems p obtain x where
      "apply_params params (AList.update pk x data) = Inr data'"
      by (auto split: sum.splits)
    from Cons.IH [OF this] Some p show ?thesis
      by (auto simp: dom_update image_iff)
  qed
qed

lemma mapping_rationale: "mapping key = Some ''rationale'' \<longleftrightarrow> key = ''Alasan''"
  by (simp add: mapping_def)

lemma parse_block_data:
  assumes "parse_block b = Inr d"
  obtains title data where
    "apply_params (findall_params b) [(''title'', PStr title)] = Inr data"
    and "d = (if map_of data ''rationale'' = None
              then AList.update ''rationale'' (PStr default_rationale) data else data)"
  using assms by (auto simp: parse_block_def Let_def split: sum.splits)

text \<open>
  A block without a match of the key \<open>Alasan\<close> gets the fallback rationale, when the loop
  over its parameters raises nothing.
\<close>

lemma parse_block_default_rationale:
  assumes "parse_block b = Inr d" and "''Alasan'' \<notin> fst ` set (findall_params b)"
  shows "map_of d ''rationale'' = Some (PStr default_rationale)"
proof -
  from assms(1) obtain title data where
    ap: "apply_params (findall_params b) [(''title'', PStr title)] = Inr data"
    and d: "d = (if map_of data ''rationale'' = None
                 then AList.update ''rationale'' (PStr default_rationale) data else data)"
    by (rule parse_block_data)
  have "''rationale'' \<notin> fst ` set data"
  proof
    assume "''rationale'' \<in> fst ` set data"
    with apply_params_keys [OF ap] obtain key where
      "key \<in> fst ` set (findall_params b)" and "mapping key = Some ''rationale''"
      by auto
    with assms(2) show False by (simp add: mapping_rationale)
  qed
  then have "map_of data ''rationale'' = None" by (simp add: map_of_eq_None_iff)
  with d show ?thesis by (simp add: update_conv')
qed

text \<open>
  The dictionary of a block always holds the two keys \<open>title\<close> and \<open>rationale\<close> when its
  length is tested: the test \<open>len(data) > 1\<close> never fails.
\<close>

lemma parse_block_length:
  assumes "parse_block b = Inr d"
  shows "1 < length d"
proof -
  from assms obtain title data where
    ap: "apply_params (findall_params b) [(''title'', PStr title)] = Inr data"
    and d: "d = (if map_of data ''rationale'' = None
                 then AList.update ''rationale'' (PStr default_rationale) data else data)"
    by (rule parse_block_data)
  from apply_params_keys [OF ap] have t: "''title'' \<in> fst ` set data" by simp
  have "''title'' \<in> fst ` set d \<and> ''rationale'' \<in> fst ` set d"
  proof (cases "map_of data ''rationale''")
    case None
    with d t show ?thesis by (simp add: dom_update)
  next
    case (Some x)
    then have "''rationale'' \<in> fst ` set data" by (metis map_of_eq_None_iff option.distinct(1))
    with Some d t show ?thesis by simp
  qed
  then have "{''title'', ''rationale''} \<subseteq> fst ` set d" by simp
  then have "card {''title'', ''rationale''} \<le> card (fst ` set d)"
    by (intro card_mono) auto
  also have "\<dots> \<le> card (set d)" by (rule card_image_le) simp
  also have "\<dots> \<le> length d" by (rule card_length)
  finally show ?thesis by simp
qed

section \<open>A block with a title only\<close>

text \<open>
  Claim C2, on the code: a block that yields a title and no field is not discarded. The
  fallback rationale is stored before the length of the dictionary is tested, so the block
  is appended with its title and the fallback rationale.
\<close>

theorem title_only_block_kept:
  "parse_agent_response title_only_example =
     Parsed
       \<lparr>initial_analysis_text = [],
        initial_prediction = Finite (151 / 2),
        target_tonnage = 80,
        initial_difference = Finite 0,
        recommendations =
          [[(''title'', PStr ''Tambah Truk''),
            (''rationale'', PStr ''Alasan tidak tersedia (Gagal parsing).'')]]\<rparr>"
  by code_simp

section \<open>A block without a rationale\<close>

text \<open>
  Claim C7, on the code: a block with an extracted field and no \<open>Alasan\<close> line gets the
  fallback rationale (\<open>parse_block_default_rationale\<close>) unless the conversion of one of its
  integer fields raises \<open>OverflowError\<close>, which the \<open>except ValueError\<close> of the loop does not
  catch: then the whole call raises.
\<close>

theorem infinite_trucks_raises:
  "parse_agent_response infinite_trucks_example =
     Raises (OverflowError ''cannot convert float infinity to integer'')"
  by code_simp

section \<open>The concrete scenario of the specification\<close>

text \<open>
  The Python float literals of the expected result: the doubles nearest to the decimals
  \<open>75.5\<close>, \<open>4.5\<close>, \<open>79.8\<close> and \<open>0.2\<close>.
\<close>

lemma literal_75_5: "round_double False 755 (- 1) = Finite (151 / 2)"
  by code_simp

lemma literal_4_5: "round_double False 45 (- 1) = Finite (9 / 2)"
  by code_simp

lemma literal_79_8: "round_double False 798 (- 1) = Finite (5615425785377587 / 70368744177664)"
  by code_simp

lemma literal_0_2: "round_double False 2 (- 1) = Finite (3602879701896397 / 18014398509481984)"
  by code_simp

lemma spec_example_value:
  "parse_agent_response spec_example =
     Parsed
       \<lparr>initial_analysis_text = ''Kontrol baik.'',
        initial_prediction = Finite (151 / 2),
        target_tonnage = 80,
        initial_difference = Finite (9 / 2),
        recommendations =
          [[(''title'', PStr ''Tambah Truk''),
            (''trucks'', PInt 14),
            (''excavators'', PInt 3),
            (''operators'', PInt 18),
            (''weather'', PStr ''1''),
            (''predicted_tonnage'', PFloat (Finite (5615425785377587 / 70368744177664))),
            (''difference_from_target'', PFloat (Finite (3602879701896397 / 18014398509481984))),
            (''rationale'', PStr ''Penambahan truk mendekati target.'')]]\<rparr>"
  by code_simp

text \<open>
  Claim C3, as stated: the weather of the recommendation would be the integer 1. The
  parser leaves the value of \<open>Cuaca\<close> a string, so the result is not the stated one.
\<close>

theorem spec_example_weather_not_int:
  "parse_agent_response spec_example \<noteq>
     Parsed
       \<lparr>initial_analysis_text = ''Kontrol baik.'',
        initial_prediction = round_double False 755 (- 1),
        target_tonnage = 80,
        initial_difference = round_double False 45 (- 1),
        recommendations =
          [[(''title'', PStr ''Tambah Truk''),
            (''trucks'', PInt 14),
            (''excavators'', PInt 3),
            (''operators'', PInt 18),
            (''weather'', PInt 1),
            (''predicted_tonnage'', PFloat (round_double False 798 (- 1))),
            (''difference_from_target'', PFloat (round_double False 2 (- 1))),
            (''rationale'', PStr ''Penambahan truk mendekati target.'')]]\<rparr>"
  by (simp add: spec_example_value)

text \<open>
  Claim C3, amended: on the text of the concrete scenario the parser succeeds and returns
  the target 80, the prediction 75.5, the difference 4.5, the analysis text and exactly
  one recommendation, with the title, the trucks 14, the excavators 3, the operators 18,
  the predicted tonnage 79.8, the difference 0.2 and the rationale of the scenario, and
  with the weather as the string \<open>1\<close>.
\<close>

theorem spec_example_parsed:
  "parse_agent_response spec_example =
     Parsed
       \<lparr>initial_analysis_text = ''Kontrol baik.'',
        initial_prediction = round_double False 755 (- 1),
        target_tonnage = 80,
        initial_difference = round_double False 45 (- 1),
        recommendations =
          [[(''title'', PStr ''Tambah Truk''),
            (''trucks'', PInt 14),
            (''excavators'', PInt 3),
            (''operators'', PInt 18),
            (''weather'', PStr ''1''),
            (''predicted_tonnage'', PFloat (round_double False 798 (- 1))),
            (''difference_from_target'', PFloat (round_double False 2 (- 1))),
            (''rationale'', PStr ''Penambahan truk mendekati target.'')]]\<rparr>"
  by (simp add: spec_example_value literal_75_5 literal_4_5 literal_79_8 literal_0_2)

section \<open>The missing target or prediction\<close>

text \<open>
  Claim C5, as stated: every text without the label \<open>Target_Tonase_Ekstrak\<close> would get the
  error of the missing target or prediction. A text without the delimiter gets the error
  of the delimiter, and one with an invalid number gets the error of the numeric values.
\<close>

theorem absent_target_other_errors:
  "\<not> contains ''Target_Tonase_Ekstrak'' no_delimiter_example \<and>
   parse_agent_response no_delimiter_example = Error MalformedFormat \<and>
   \<not> contains ''Target_Tonase_Ekstrak'' bad_number_example \<and>
   parse_agent_response bad_number_example = Error (NumericParse (float_error ''1.2.3''))"
  by code_simp

text \<open>
  Claim C5, amended: for every text that holds the delimiter and whose three numbers of
  the analysis are converted without an exception, if the label \<open>Target_Tonase_Ekstrak\<close> is
  absent from the analysis part or the target is 0, or the label \<open>Prediksi_Kontrol\<close> is
  absent or the prediction is 0.0, the parser returns the error of the missing target or
  prediction, whatever the recommendation blocks hold, provided the loop over the blocks
  raises nothing.
\<close>

theorem sentinel_zero:
  assumes "find_sub END_ANALYSIS t = Some (ap, rr)"
    and "analysis_numbers ap = Inr (pred, target, diff)"
    and "parse_blocks (split_on START_RECOMMENDATION rr) [] = Inr recs"
    and "\<not> contains ''Target_Tonase_Ekstrak'' ap \<or> target = 0 \<or>
         \<not> contains ''Prediksi_Kontrol'' ap \<or> pred = Finite 0"
  shows "parse_agent_response t = Error IncompleteAnalysis"
proof -
  have "target = 0 \<or> pred = Finite 0"
  proof -
    have "search_number ''Target_Tonase_Ekstrak'' ap = None" if "\<not> contains ''Target_Tonase_Ekstrak'' ap"
      using that search_number_contains [of "''Target_Tonase_Ekstrak''" ap]
      by (cases "search_number ''Target_Tonase_Ekstrak'' ap") auto
    moreover have "search_number ''Prediksi_Kontrol'' ap = None" if "\<not> contains ''Prediksi_Kontrol'' ap"
      using that search_number_contains [of "''Prediksi_Kontrol''" ap]
      by (cases "search_number ''Prediksi_Kontrol'' ap") auto
    ultimately show ?thesis
      using assms(4) analysis_numbers_target_absent [OF assms(2)]
        analysis_numbers_prediction_absent [OF assms(2)]
      by blast
  qed
  then show ?thesis
    using assms(2,3) by (auto simp: parse_with_delimiter [OF assms(1)])
qed

lemma no_target_example_cut:
  "find_sub END_ANALYSIS no_target_example =
     Some (''Prediksi_Kontrol: 75.5\<newline>'',
           ''\<newline>Rekomendasi 1: Tambah Truk\<newline>Truk: 14\<newline>Alasan: Baik.'')"
  by code_simp

lemma no_target_example_numbers:
  "analysis_numbers ''Prediksi_Kontrol: 75.5\<newline>'' = Inr (Finite (151 / 2), 0, Finite 0)"
  by code_simp

lemma no_target_example_blocks:
  "parse_blocks
     (split_on START_RECOMMENDATION
        ''\<newline>Rekomendasi 1: Tambah Truk\<newline>Truk: 14\<newline>Alasan: Baik.'') [] =
     Inr [[(''title'', PStr ''Tambah Truk''), (''trucks'', PInt 14),
           (''rationale'', PStr ''Baik.'')]]"
  by code_simp

lemma no_target_example_absent:
  "\<not> contains ''Target_Tonase_Ekstrak'' ''Prediksi_Kontrol: 75.5\<newline>''"
  by code_simp

theorem sentinel_zero_witness:
  "parse_agent_response no_target_example = Error IncompleteAnalysis"
  using sentinel_zero [OF no_target_example_cut no_target_example_numbers
      no_target_example_blocks] no_target_example_absent
  by blast

section \<open>The text of the final response\<close>

lemma first_part_text_eq:
  "first_part_text ps = (case part_texts ps of [] \<Rightarrow> [] | t # ts \<Rightarrow> t)"
  by (induction ps) (auto simp: part_texts_def split: option.splits)

text \<open>
  Claim C4, as stated: the response text would be the concatenation of the texts of all
  the parts of the final event. The loop over the parts ends at the first part with a
  text, so a second text is not appended.
\<close>

theorem second_part_dropped:
  "collect_response [two_parts_event] [] = ''Kontrol baik.'' \<and>
   collect_response [two_parts_event] [] \<noteq> concat (part_texts (final_parts two_parts_event))"
  by (simp add: two_parts_event_def part_texts_def final_parts_def)

text \<open>
  Claim C4, amended: from each final event whose content has parts the orchestrator
  appends the text of the first part that has a non-empty text, and nothing from the
  other parts; the accumulated response text is the concatenation of these first texts
  over the final events of the stream, in order.
\<close>

theorem collect_response_first_texts:
  "collect_response evs acc =
     acc @ concat (map (\<lambda>ev. case part_texts (final_parts ev) of [] \<Rightarrow> [] | t # ts \<Rightarrow> t) evs)"
proof (induction evs arbitrary: acc)
  case Nil
  then show ?case by simp
next
  case (Cons ev evs)
  have "collect_response (ev # evs) acc = collect_response evs (acc @ first_part_text (final_parts ev))"
    by (simp add: final_parts_def split: option.splits)
  then show ?case
    by (simp add: Cons.IH first_part_text_eq)
qed

section \<open>The readiness gate\<close>

lemma fixed_text_parsed:
  "parse_agent_response ''Target_Tonase_Ekstrak: 80 Prediksi_Kontrol: 75.5 ---END_ANALYSIS---'' =
     Parsed
       \<lparr>initial_analysis_text = [], initial_prediction = Finite (151 / 2), target_tonnage = 80,
        initial_difference = Finite 0, recommendations = []\<rparr>"
  by code_simp

lemma model_not_loaded_parsed:
  "parse_agent_response model_not_loaded = Error MalformedFormat"
  by code_simp

text \<open>
  Claim C1, as stated: every request that arrives while the model is unloaded would be
  refused with the signal 503. The endpoint does not read the model: with the agent and
  the key in place the request is processed, to a body when the agent answers in the
  strict format, to the error 500 when the agent passes on the error text of the tool.
\<close>

theorem unloaded_model_not_refused:
  "loaded_model unloaded_env = None \<and>
   fst (predict_and_recommend unloaded_env fixed_kit id Inr () example_request) =
     Response
       \<lparr>initial_analysis_text = [], initial_prediction = Finite (151 / 2), target_tonnage = 80,
        initial_difference = Finite 0, recommendations = []\<rparr> \<and>
   fst (predict_and_recommend unloaded_env tool_kit id Inr () example_request) =
     (HTTPException 500
        (''Kesalahan pada layanan Agent: Gagal mem-parsing output Agent: '' @
         error_text MalformedFormat) :: analysis http)"
  by (simp add: predict_and_recommend_def unloaded_env_def fixed_kit_def tool_kit_def
      example_request_def final_text_event_def predict_mining_target_def agent_failure_def
      fixed_text_parsed model_not_loaded_parsed [unfolded model_not_loaded_def])

text \<open>
  Claim C1, amended: the prediction endpoint refuses a request with the signal 503 when
  the agent or the API key is not there, and only then: with both in place no request is
  answered with 503, whatever the state of the model. Whether the model is loaded is
  checked separately, by the prediction tool: when the model is unloaded, every call of
  \<open>predict_mining_target\<close> returns the error text of the model that is not loaded.
\<close>

theorem readiness_gate:
  "(mining_agent env = None \<or> GEMINI_API_KEY env = None \<longrightarrow>
      predict_and_recommend env kit round2 response_model store data =
        (HTTPException 503 unavailable, store)) \<and>
   (mining_agent env \<noteq> None \<and> GEMINI_API_KEY env \<noteq> None \<longrightarrow>
      (\<forall>d. fst (predict_and_recommend env kit round2 response_model store data) \<noteq>
         HTTPException 503 d)) \<and>
   predict_mining_target None round2 scenarios = ToolText model_not_loaded"
proof (intro conjI impI allI)
  assume "mining_agent env = None \<or> GEMINI_API_KEY env = None"
  then show "predict_and_recommend env kit round2 response_model store data =
      (HTTPException 503 unavailable, store)"
    by (auto simp: predict_and_recommend_def unavailable_def split: option.splits)
next
  fix d
  assume "mining_agent env \<noteq> None \<and> GEMINI_API_KEY env \<noteq> None"
  then show "fst (predict_and_recommend env kit round2 response_model store data) \<noteq>
      HTTPException 503 d"
    by (auto simp: predict_and_recommend_def agent_failure_def Let_def
        split: option.splits parse_result.splits sum.splits)
next
  show "predict_mining_target None round2 scenarios = ToolText model_not_loaded"
    by (simp add: predict_mining_target_def model_not_loaded_def)
qed

theorem readiness_gate_witness:
  "predict_and_recommend no_agent_env fixed_kit id Inr () example_request =
     (HTTPException 503 unavailable :: analysis http, ()) \<and>
   fst (predict_and_recommend unloaded_env fixed_kit id Inr () example_request) \<noteq>
     (HTTPException 503 unavailable :: analysis http) \<and>
   predict_mining_target None id [[PInt 12, PInt 3, PInt 18, PInt 1]] = ToolText model_not_loaded"
  using readiness_gate [of no_agent_env fixed_kit id Inr "()" example_request "[[PInt 12, PInt 3, PInt 18, PInt 1]]"]
    readiness_gate [of unloaded_env fixed_kit id Inr "()" example_request "[]"]
  by (simp add: no_agent_env_def unloaded_env_def)

section \<open>The end of a session\<close>

text \<open>
  For every session service, store and user id, the end of a session returns a status
  object and raises nothing: the status is \<open>info\<close>, with the message of the session that was
  not found, when the deletion raises, and \<open>success\<close>, with the message of the session that
  was ended, when the deletion returns.
\<close>

lemma end_session_returns:
  "end_session kit store uid =
     (Response
        (if snd (delete_session kit store APP_NAME uid (''session_'' @ uid))
         then \<lparr>status = ''info'', message = not_found uid\<rparr>
         else \<lparr>status = ''success'', message = ended uid\<rparr>),
      fst (delete_session kit store APP_NAME uid (''session_'' @ uid)))"
  by (simp add: end_session_def Let_def not_found_def ended_def)

text \<open>
  When the service removes the session it is asked to delete and leaves the store alone
  when the session is not there, a second call in a row finds the session missing and
  changes nothing.
\<close>

lemma end_session_twice:
  fixes kit :: "('a, 's) adk" and present :: "'s \<Rightarrow> bool"
  assumes removed:
    "\<And>s. \<not> present (fst (delete_session kit s APP_NAME uid (''session_'' @ uid)))"
    and absent:
    "\<And>s. \<not> present s \<Longrightarrow> fst (delete_session kit s APP_NAME uid (''session_'' @ uid)) = s"
  shows "\<not> present (snd (end_session kit store uid)) \<and>
     snd (end_session kit (snd (end_session kit store uid)) uid) =
       snd (end_session kit store uid)"
  using removed absent by (simp add: end_session_returns)

text \<open>
  Claim C9, on the code: the endpoint never raises, but a session that does not exist is
  not answered with the informational status. The status \<open>info\<close> and its message of the
  session that was not found are in the \<open>except\<close> branch, and the deletion of the in-memory
  session service returns without an exception when the session is missing: the endpoint
  answers with the status \<open>success\<close> and the message of a session that was ended, on the
  first call for a user without a session and on the second of two calls in a row.
\<close>

theorem missing_session_reported_ended:
  "end_session memory_kit [] ''user_api_001'' =
     (Response \<lparr>status = ''success'', message = ended ''user_api_001''\<rparr>, []) \<and>
   end_session memory_kit
     (snd (end_session memory_kit
             [(''agents'', ''user_api_001'', ''session_user_api_001'')] ''user_api_001''))
     ''user_api_001'' =
     (Response \<lparr>status = ''success'', message = ended ''user_api_001''\<rparr>, [])"
  by (simp add: end_session_returns memory_kit_def APP_NAME_def)

section \<open>Texts cut by a separator\<close>

lemma starts_with_sep:
  assumes "c \<notin> set p" and "starts_with p (x @ c # y)"
  shows "starts_with p x"
proof -
  from assms(2) obtain r where "x @ c # y = p @ r" by (auto simp: starts_with_iff)
  then consider us where "x = p @ us" | us where "x @ us = p" and "c # y = us @ r"
    by (auto simp: append_eq_append_conv2)
  then show ?thesis
  proof cases
    case 1
    then show ?thesis by (simp add: starts_with_append)
  next
    case 2
    show ?thesis
    proof (cases us)
      case Nil
      with 2 show ?thesis by (auto simp: starts_with_iff)
    next
      case (Cons u us')
      with 2 have "c \<in> set p" by auto
      with assms(1) show ?thesis by simp
    qed
  qed
qed

lemma contains_Cons: "contains p (c # s) \<longleftrightarrow> starts_with p (c # s) \<or> contains p s"
  by (auto simp: contains_def split: option.splits)

lemma contains_Nil: "contains p [] \<longleftrightarrow> p = []"
  by (simp add: contains_def)

lemma contains_sep:
  assumes "c \<notin> set p"
  shows "contains p (x @ c # y) \<longleftrightarrow> contains p x \<or> contains p y"
proof (induction x)
  case Nil
  have "\<not> starts_with p (c # y)" if "p \<noteq> []"
    using that assms by (cases p) auto
  moreover have "contains p y" if "p = []"
    using that by (cases y) (simp_all add: contains_def)
  ultimately show ?case by (auto simp: contains_Cons contains_Nil)
next
  case (Cons h x)
  have "starts_with p (h # x @ c # y) \<longleftrightarrow> starts_with p (h # x)"
  proof
    assume "starts_with p (h # x @ c # y)"
    then have "starts_with p ((h # x) @ c # y)" by simp
    from starts_with_sep [OF assms this] show "starts_with p (h # x)" .
  next
    assume "starts_with p (h # x)"
    then obtain r where "h # x = p @ r" by (auto simp: starts_with_iff)
    then have "h # x @ c # y = p @ (r @ c # y)" by (metis append_Cons append_assoc)
    then show "starts_with p (h # x @ c # y)" unfolding starts_with_iff by blast
  qed
  with Cons show ?case by (auto simp: contains_Cons)
qed

lemma contains_char:
  assumes "c \<in> set p" and "c \<notin> set x"
  shows "\<not> contains p x"
  using assms by (auto simp: contains_iff)

lemma find_sub_prefix:
  assumes "p \<noteq> []"
  shows "find_sub p (p @ rest) = Some ([], rest)"
proof -
  from assms obtain a p' where p: "p = a # p'" by (cases p) auto
  have "starts_with p (a # (p' @ rest))"
    using starts_with_append [of p rest] by (simp add: p)
  moreover have "drop (length p) (a # (p' @ rest)) = rest" by (simp add: p)
  ultimately have "find_sub p (a # (p' @ rest)) = Some ([], rest)"
    by (simp only: find_sub.simps if_True)
  then show ?thesis by (simp add: p)
qed

lemma find_sub_sep:
  assumes "c \<notin> set p" and "p \<noteq> []" and "\<not> contains p x"
  shows "find_sub p (x @ c # p @ rest) = Some (x @ [c], rest)"
  using assms(3)
proof (induction x)
  case Nil
  have "\<not> starts_with p (c # p @ rest)"
    using assms(1,2) by (cases p) auto
  then show ?case by (simp add: find_sub_prefix [OF assms(2)])
next
  case (Cons h x)
  then have no: "\<not> starts_with p (h # x)" and "\<not> contains p x"
    by (auto simp: contains_Cons)
  have "\<not> starts_with p ((h # x) @ c # p @ rest)"
    using starts_with_sep [OF assms(1)] no by blast
  with Cons.IH [OF \<open>\<not> contains p x\<close>] show ?case by simp
qed

section \<open>Texts that cleaning leaves alone\<close>

lemma dropWhile_id: "s \<noteq> [] \<Longrightarrow> \<not> P (hd s) \<Longrightarrow> dropWhile P s = s"
  by (cases s) auto

lemma strip_id:
  assumes "s \<noteq> []" and "\<not> is_space (hd s)" and "\<not> is_space (last s)"
  shows "strip s = s"
proof -
  have "dropWhile is_space (rev s) = rev s"
    using assms by (intro dropWhile_id) (auto simp: hd_rev)
  with assms show ?thesis by (simp add: strip_def dropWhile_id)
qed

lemma is_space_newline: "is_space newline"
  by (simp add: is_space_def newline_def)

lemma strip_wrapped:
  assumes "s \<noteq> []" and "\<not> is_space (hd s)" and "\<not> is_space (last s)"
  shows "strip (newline # s @ [newline]) = s"
proof -
  have "dropWhile is_space (s @ [newline]) = s @ [newline]"
    using assms by (intro dropWhile_id) auto
  moreover have "dropWhile is_space (rev s) = rev s"
    using assms by (intro dropWhile_id) (auto simp: hd_rev)
  ultimately show ?thesis by (simp add: strip_def is_space_newline)
qed

lemma strip_newline: "strip [newline] = []"
  by (simp add: strip_def is_space_newline)

lemma remove_all_id:
  assumes "p \<noteq> []" and "hd p \<notin> set s"
  shows "remove_all p s = s"
  using assms(2)
proof (induction s)
  case Nil
  show ?case by (subst remove_all.simps) simp
next
  case (Cons c cs)
  have "\<not> starts_with p (c # cs)"
    using assms(1) Cons.prems by (cases p) auto
  moreover from Cons have "remove_all p cs = cs" by simp
  ultimately show ?case
    using assms(1) by (subst remove_all.simps) simp
qed

lemma clean_value_id:
  assumes "v \<noteq> []" and "CHR ''T'' \<notin> set v" and "CHR '','' \<notin> set v"
    and "\<not> is_space (hd v)" and "\<not> is_space (last v)"
  shows "clean_value v = v"
  using assms by (simp add: clean_value_def remove_all_id strip_id)

section \<open>Decimal numerals\<close>

lemma char_by_code:
  fixes d :: char
  assumes "(of_char c :: nat) = of_char d"
  shows "c = d"
  using assms by (simp only: of_char_eq_iff)

lemma digit_chars:
  "char_of (48 :: nat) = CHR ''0''" "char_of (49 :: nat) = CHR ''1''"
  "char_of (50 :: nat) = CHR ''2''" "char_of (51 :: nat) = CHR ''3''"
  "char_of (52 :: nat) = CHR ''4''" "char_of (53 :: nat) = CHR ''5''"
  "char_of (54 :: nat) = CHR ''6''" "char_of (55 :: nat) = CHR ''7''"
  "char_of (56 :: nat) = CHR ''8''" "char_of (57 :: nat) = CHR ''9''"
  by (rule char_by_code, simp)+

lemma digit_cases:
  assumes "is_digit c"
  shows "c \<in> set ''0123456789''"
proof -
  define n where "n = (of_char c :: nat)"
  from assms have "48 \<le> n" "n \<le> 57" by (simp_all add: is_digit_def n_def Let_def)
  then have "n = 48 \<or> n = 49 \<or> n = 50 \<or> n = 51 \<or> n = 52 \<or> n = 53 \<or> n = 54 \<or> n = 55 \<or>
      n = 56 \<or> n = 57"
    by arith
  moreover have "c = char_of n" by (simp add: n_def)
  ultimately have "c = CHR ''0'' \<or> c = CHR ''1'' \<or> c = CHR ''2'' \<or> c = CHR ''3'' \<or> c = CHR ''4'' \<or>
      c = CHR ''5'' \<or> c = CHR ''6'' \<or> c = CHR ''7'' \<or> c = CHR ''8'' \<or> c = CHR ''9''"
    by (elim disjE) (simp_all only: digit_chars simp_thms)
  then show ?thesis by auto
qed

lemma numch_cases: "is_numch c \<Longrightarrow> c \<in> set ''0123456789.''"
  using digit_cases [of c] by (auto simp: is_numch_def)

lemma is_digit_digit_char: "k < 10 \<Longrightarrow> is_digit (digit_char k)"
  by (simp add: is_digit_def digit_char_def)

lemma digit_val_digit_char:
  assumes "k < 10"
  shows "digit_val (digit_char k) = int k"
proof -
  have "(of_char (digit_char k) :: int) = int (of_char (digit_char k))"
    by (simp only: of_nat_of_char)
  also from assms have "(of_char (digit_char k) :: nat) = 48 + k"
    by (simp add: digit_char_def)
  finally show ?thesis by (simp add: digit_val_def)
qed

lemma show_nat_digits: "list_all is_digit (show_nat n)"
proof (induction n rule: show_nat.induct)
  case (1 n)
  show ?case
  proof (cases "n < 10")
    case True
    then show ?thesis by (subst show_nat.simps) (simp add: is_digit_digit_char)
  next
    case False
    with 1 show ?thesis by (subst show_nat.simps) (simp add: is_digit_digit_char)
  qed
qed

lemma show_nat_nonempty: "show_nat n \<noteq> []"
  by (subst show_nat.simps) simp

lemma int_of_digits_snoc: "int_of_digits (ds @ [c]) = 10 * int_of_digits ds + digit_val c"
  by (simp add: int_of_digits_def)

lemma int_of_digits_show_nat: "int_of_digits (show_nat n) = int n"
proof (induction n rule: show_nat.induct)
  case (1 n)
  show ?case
  proof (cases "n < 10")
    case True
    then show ?thesis
      by (subst show_nat.simps) (simp add: int_of_digits_def digit_val_digit_char)
  next
    case False
    with 1 have "int_of_digits (show_nat (n div 10)) = int (n div 10)" by simp
    with False show ?thesis
      by (subst show_nat.simps)
        (simp add: int_of_digits_snoc digit_val_digit_char zdiv_int zmod_int)
  qed
qed

lemma show_int_nonneg: "0 \<le> i \<Longrightarrow> show_int i = show_nat (nat i)"
  by (simp add: show_int_def)

section \<open>Reading a decimal integer back\<close>

lemma ilog2_nonneg: "0 \<le> ilog2 n"
proof (induction n rule: ilog2.induct)
  case (1 n)
  then show ?case by (subst ilog2.simps) simp
qed

lemma ilog2_bound: "n < 2 ^ Suc k \<Longrightarrow> ilog2 n \<le> int k"
proof (induction k arbitrary: n)
  case 0
  then show ?case by (subst ilog2.simps) simp
next
  case (Suc k)
  show ?case
  proof (cases "n < 2")
    case True
    then show ?thesis by (subst ilog2.simps) simp
  next
    case False
    from Suc.prems have "n div 2 < 2 ^ Suc k" by simp
    from Suc.IH [OF this] False show ?thesis by (subst ilog2.simps) simp
  qed
qed

lemma ilog2_one: "ilog2 1 = 0"
  by (subst ilog2.simps) simp

lemma floor_log2_int_bound:
  assumes "n < 2 ^ 53"
  shows "floor_log2 n 1 \<le> 52"
proof -
  from assms have "n < 2 ^ Suc 52" by simp
  from ilog2_bound [OF this] show ?thesis
    by (simp add: floor_log2_def Let_def ilog2_one)
qed

lemma round_half_even_one: "round_half_even n 1 = n"
  by (simp add: round_half_even_def)

text \<open>An integer below \<open>2 ^ 53\<close> is a double: rounding leaves it alone.\<close>

lemma round_double_int:
  assumes "0 \<le> n" and "n < 2 ^ 53"
  shows "round_double False n 0 = Finite (of_int n)"
proof (cases "n = 0")
  case True
  then show ?thesis by (simp add: round_double_def)
next
  case False
  define qe where "qe = max (floor_log2 n 1 - 52) (- 1074)"
  have qe: "qe \<le> 0" using floor_log2_int_bound [OF assms(2)] by (simp add: qe_def)
  define sg where "sg = (if 0 \<le> qe then round_half_even n (1 * 2 ^ nat qe)
                         else round_half_even (n * 2 ^ nat (- qe)) 1)"
  have sg: "sg = n * 2 ^ nat (- qe)"
    using qe by (cases "qe = 0") (simp_all add: sg_def round_half_even_one)
  have "pow2 qe = 1 / of_int (2 ^ nat (- qe))"
    using qe by (cases "qe = 0") (simp_all add: pow2_def)
  with sg have v: "of_int sg * pow2 qe = (of_int n :: rat)" by simp
  have "(of_int n :: rat) < of_int (2 ^ 53)" using assms(2) by (simp only: of_int_less_iff)
  also have "\<dots> \<le> of_int (2 ^ 1024)" by (simp only: of_int_le_iff) simp
  finally have small: "\<not> pow2 1024 \<le> (of_int n :: rat)" by (simp add: pow2_def)
  have "round_double False n 0 =
      (if pow2 1024 \<le> of_int sg * pow2 qe then PInf else Finite (of_int sg * pow2 qe))"
    using False by (simp add: round_double_def Let_def qe_def sg_def)
  with v small show ?thesis by simp
qed

lemma py_int_of_int: "py_int (Finite (of_int n)) = Inr n"
  by (simp add: py_int_def)

section \<open>Reading a plain numeral\<close>

lemma plain_numeral_show_nat: "plain_numeral (show_nat n)"
  using show_nat_digits [of n]
  by (auto simp: plain_numeral_def show_nat_nonempty is_numch_def list_all_iff)

lemma numch_not_space: "is_numch c \<Longrightarrow> \<not> is_space c"
  by (drule numch_cases) (auto simp: is_space_def)

lemma numch_not_float_space: "is_numch c \<Longrightarrow> \<not> is_float_space c"
  by (drule numch_cases) (auto simp: is_float_space_def)

lemma numch_not_newline: "is_numch c \<Longrightarrow> c \<noteq> newline"
  by (drule numch_cases) (auto simp: newline_def)

lemma newline_not_numch: "\<not> is_numch newline"
  using numch_not_newline by blast

lemma plain_numeral_set:
  assumes "plain_numeral v"
  shows "set v \<subseteq> set ''0123456789.''"
proof
  fix c
  assume "c \<in> set v"
  with assms have "is_numch c" by (simp add: plain_numeral_def list_all_iff)
  then show "c \<in> set ''0123456789.''" by (rule numch_cases)
qed

lemma plain_numeral_hd: "plain_numeral v \<Longrightarrow> is_numch (hd v)"
  by (cases v) (auto simp: plain_numeral_def)

lemma plain_numeral_last: "plain_numeral v \<Longrightarrow> is_numch (last v)"
  by (auto simp: plain_numeral_def list_all_iff)

lemma plain_numeral_clean: "plain_numeral v \<Longrightarrow> clean_value v = v"
proof (rule clean_value_id)
  assume v: "plain_numeral v"
  then show "v \<noteq> []" by (simp add: plain_numeral_def)
  from plain_numeral_set [OF v] show "CHR ''T'' \<notin> set v" "CHR '','' \<notin> set v" by auto
  from v show "\<not> is_space (hd v)" by (simp add: plain_numeral_hd numch_not_space)
  from v show "\<not> is_space (last v)" by (simp add: plain_numeral_last numch_not_space)
qed

text \<open>\<open>float()\<close> and \<open>int(float())\<close> on the decimal rendering of a natural number.\<close>

lemma underscores_ok_none:
  "CHR ''_'' \<notin> set s \<Longrightarrow> prev \<noteq> CHR ''_'' \<Longrightarrow> underscores_ok prev s"
  by (induction s arbitrary: prev) auto

lemma digits_facts:
  assumes "ds \<noteq> []" and "list_all is_digit ds"
  shows "set ds \<subseteq> set ''0123456789''"
proof
  fix c
  assume "c \<in> set ds"
  with assms have "is_digit c" by (simp add: list_all_iff)
  then show "c \<in> set ''0123456789''" by (rule digit_cases)
qed

lemma lower_digit: "is_digit c \<Longrightarrow> lower c = c"
  by (simp add: lower_def is_digit_def Let_def)

lemma parse_number_digits:
  assumes "ds \<noteq> []" and "list_all is_digit ds"
  shows "parse_number ds = Some (int_of_digits ds, 0)"
proof -
  from assms(2) have tw: "takeWhile is_digit ds = ds" and dw: "dropWhile is_digit ds = []"
    by (simp_all add: list_all_iff)
  show ?thesis
    unfolding parse_number_def Let_def tw dw
    using assms(1) by (simp add: parse_exponent_def)
qed

lemma py_float_digits:
  assumes "ds \<noteq> []" and "list_all is_digit ds"
  shows "py_float ds = Inr (round_double False (int_of_digits ds) 0)"
proof -
  have sub: "set ds \<subseteq> set ''0123456789''" by (rule digits_facts [OF assms])
  from assms obtain h r where ds: "ds = h # r" by (cases ds) auto
  have hd: "is_digit (hd ds)" and last: "is_digit (last ds)"
    using assms by (auto simp: list_all_iff)
  have nsp: "\<not> is_float_space c" if "is_digit c" for c
    using that by (simp add: numch_not_float_space is_numch_def)
  have "dropWhile is_float_space ds = ds"
    using assms(1) hd by (intro dropWhile_id) (auto simp: nsp)
  moreover have "dropWhile is_float_space (rev ds) = rev ds"
    using assms(1) last by (intro dropWhile_id) (auto simp: nsp hd_rev)
  ultimately have t: "rev (dropWhile is_float_space (rev (dropWhile is_float_space ds))) = ds"
    by simp
  from sub have und: "CHR ''_'' \<notin> set ds" by auto
  then have ok: "underscores_ok (CHR 0x00) ds" by (intro underscores_ok_none) auto
  from und have u: "filter (\<lambda>c. c \<noteq> CHR ''_'') ds = ds" by (auto simp: filter_id_conv)
  from sub ds have h: "h \<noteq> CHR ''-''" "h \<noteq> CHR ''+''" by auto
  have low: "map lower ds = ds"
    using assms(2) by (simp add: list_all_iff lower_digit map_idI)
  from sub have "CHR ''i'' \<notin> set ds" "CHR ''n'' \<notin> set ds" by auto
  then have "ds \<noteq> ''inf''" "ds \<noteq> ''infinity''" "ds \<noteq> ''nan''" by auto
  with low have abs: "parse_abs_float False ds = Some (round_double False (int_of_digits ds) 0)"
    by (simp add: parse_abs_float_def parse_number_digits [OF assms])
  have "parse_float ds = Some (round_double False (int_of_digits ds) 0)"
    unfolding parse_float_def Let_def t
    using ok u h abs by (simp add: ds)
  then show ?thesis by (simp add: py_float_def)
qed

lemma py_int_float_show_nat:
  assumes "n < 2 ^ 53"
  shows "py_int_float (show_nat n) = Inr (int n)"
proof -
  have "int n < 2 ^ 53" using assms by (metis of_nat_less_iff of_nat_numeral of_nat_power)
  then have "round_double False (int n) 0 = Finite (of_int (int n))"
    by (intro round_double_int) simp_all
  moreover have "py_int (Finite (of_int (int n))) = Inr (int n)" by (rule py_int_of_int)
  ultimately show ?thesis
    by (simp only: py_int_float_def py_float_digits [OF show_nat_nonempty show_nat_digits]
        int_of_digits_show_nat sum.case)
qed

section \<open>The patterns on rendered lines\<close>

lemma newline_not_space_char: "newline \<noteq> CHR '' ''"
  by (simp add: newline_def)

lemma line_nonempty: "line lbl v \<noteq> []"
  by (simp add: line_def)

lemma line_split: "line lbl v @ rest = (lbl @ '':'') @ (CHR '' '' # v @ rest)"
  by (simp add: line_def)

lemma set_line: "set (line lbl v) = set lbl \<union> {CHR '':'', CHR '' ''} \<union> set v"
  by (auto simp: line_def)

lemma takeWhile_all: "\<forall>x \<in> set v. P x \<Longrightarrow> \<not> P c \<Longrightarrow> takeWhile P (v @ c # y) = v"
  by (induction v) auto

lemma dropWhile_all: "\<forall>x \<in> set v. P x \<Longrightarrow> \<not> P c \<Longrightarrow> dropWhile P (v @ c # y) = c # y"
  by (induction v) auto

lemma match_number_line:
  assumes "plain_numeral v"
  shows "match_number lbl (line lbl v @ newline # y) = Some (v, newline # y)"
proof -
  from assms have v: "v \<noteq> []" "\<forall>c \<in> set v. is_numch c"
    by (simp_all add: plain_numeral_def list_all_iff)
  have sw: "starts_with (lbl @ '':'') (line lbl v @ newline # y)"
    unfolding line_split by (rule starts_with_append)
  have "drop (length lbl + 1) (line lbl v @ newline # y) = CHR '' '' # v @ newline # y"
    unfolding line_split by simp
  moreover have "dropWhile is_space (CHR '' '' # v @ newline # y) = v @ newline # y"
  proof -
    have "is_space (CHR '' '')" by (simp add: is_space_def)
    moreover have "dropWhile is_space (v @ newline # y) = v @ newline # y"
      using v assms by (intro dropWhile_id) (auto simp: plain_numeral_hd numch_not_space)
    ultimately show ?thesis by simp
  qed
  moreover have "takeWhile is_numch (v @ newline # y) = v"
    using v(2) newline_not_numch by (rule takeWhile_all)
  moreover have "dropWhile is_numch (v @ newline # y) = newline # y"
    using v(2) newline_not_numch by (rule dropWhile_all)
  ultimately show ?thesis
    using sw v(1) by (simp add: match_number_def Let_def)
qed

lemma search_number_match:
  assumes "match_number lbl s = Some (tok, rest)"
  shows "search_number lbl s = Some tok"
proof (cases s)
  case Nil
  with assms show ?thesis by (simp add: match_number_def split: if_splits)
next
  case (Cons c cs)
  with assms show ?thesis by simp
qed

lemma search_number_line:
  "plain_numeral v \<Longrightarrow> search_number lbl (line lbl v @ newline # y) = Some v"
  by (rule search_number_match [OF match_number_line])

lemma match_number_not_prefix:
  "\<not> starts_with (lbl @ '':'') s \<Longrightarrow> match_number lbl s = None"
  by (simp add: match_number_def)

lemma search_number_skip:
  assumes "newline \<notin> set lbl" and "\<not> contains (lbl @ '':'') x"
  shows "search_number lbl (x @ newline # y) = search_number lbl y"
  using assms(2)
proof (induction x)
  case Nil
  have "\<not> starts_with (lbl @ '':'') (newline # y)"
    using assms(1) by (cases lbl) (auto simp: newline_def)
  then show ?case by (simp add: match_number_not_prefix)
next
  case (Cons h x)
  then have no: "\<not> starts_with (lbl @ '':'') (h # x)" and rest: "\<not> contains (lbl @ '':'') x"
    by (auto simp: contains_Cons)
  have "newline \<notin> set (lbl @ '':'')" using assms(1) by (simp add: newline_def)
  from starts_with_sep [OF this] no
  have "\<not> starts_with (lbl @ '':'') ((h # x) @ newline # y)" by blast
  then have "match_number lbl (h # x @ newline # y) = None"
    by (simp add: match_number_not_prefix)
  with Cons.IH [OF rest] show ?case by simp
qed

text \<open>The three numbers of a rendered analysis section.\<close>

lemma analysis_labels_apart:
  assumes "plain_numeral v"
  shows "\<not> contains ''Prediksi_Kontrol:'' (line ''Target_Tonase_Ekstrak'' v)"
    and "\<not> contains ''Selisih_Kontrol:'' (line ''Target_Tonase_Ekstrak'' v)"
    and "\<not> contains ''Selisih_Kontrol:'' (line ''Prediksi_Kontrol'' v)"
proof -
  from plain_numeral_set [OF assms] have v: "set v \<subseteq> set ''0123456789.''" .
  show "\<not> contains ''Prediksi_Kontrol:'' (line ''Target_Tonase_Ekstrak'' v)"
    by (rule contains_char [of "CHR ''P''"]) (use v in \<open>auto simp: set_line\<close>)
  show "\<not> contains ''Selisih_Kontrol:'' (line ''Target_Tonase_Ekstrak'' v)"
    by (rule contains_char [of "CHR ''S''"]) (use v in \<open>auto simp: set_line\<close>)
  show "\<not> contains ''Selisih_Kontrol:'' (line ''Prediksi_Kontrol'' v)"
    by (rule contains_char [of "CHR ''S''"]) (use v in \<open>auto simp: set_line\<close>)
qed

lemma search_number_skip_to:
  assumes "newline \<notin> set lbl" and "\<not> contains (lbl @ '':'') x"
    and "search_number lbl y = r"
  shows "search_number lbl (x @ newline # y) = r"
  using assms by (simp add: search_number_skip)

lemma rendered_analysis_numbers:
  assumes a: "\<forall>lbl \<in> set analysis_labels. \<not> contains (lbl @ '':'') a"
    and t: "plain_numeral t" and p: "plain_numeral p" and d: "plain_numeral d"
  shows "search_number ''Target_Tonase_Ekstrak''
           (a @ newline # line ''Target_Tonase_Ekstrak'' t @ newline #
            line ''Prediksi_Kontrol'' p @ newline # line ''Selisih_Kontrol'' d @ [newline]) =
         Some t"
    and "search_number ''Prediksi_Kontrol''
           (a @ newline # line ''Target_Tonase_Ekstrak'' t @ newline #
            line ''Prediksi_Kontrol'' p @ newline # line ''Selisih_Kontrol'' d @ [newline]) =
         Some p"
    and "search_number ''Selisih_Kontrol''
           (a @ newline # line ''Target_Tonase_Ekstrak'' t @ newline #
            line ''Prediksi_Kontrol'' p @ newline # line ''Selisih_Kontrol'' d @ [newline]) =
         Some d"
proof -
  from a have a1: "\<not> contains (''Target_Tonase_Ekstrak'' @ '':'') a"
    and a2: "\<not> contains (''Prediksi_Kontrol'' @ '':'') a"
    and a3: "\<not> contains (''Selisih_Kontrol'' @ '':'') a"
    by (simp_all add: analysis_labels_def)
  have n1: "newline \<notin> set ''Target_Tonase_Ekstrak''"
    and n2: "newline \<notin> set ''Prediksi_Kontrol''"
    and n3: "newline \<notin> set ''Selisih_Kontrol''"
    by (simp_all add: newline_def)
  have b2: "\<not> contains (''Prediksi_Kontrol'' @ '':'') (line ''Target_Tonase_Ekstrak'' t)"
    and b3: "\<not> contains (''Selisih_Kontrol'' @ '':'') (line ''Target_Tonase_Ekstrak'' t)"
    and c3: "\<not> contains (''Selisih_Kontrol'' @ '':'') (line ''Prediksi_Kontrol'' p)"
    using analysis_labels_apart [OF t] analysis_labels_apart(3) [OF p] by simp_all
  show "search_number ''Target_Tonase_Ekstrak''
           (a @ newline # line ''Target_Tonase_Ekstrak'' t @ newline #
            line ''Prediksi_Kontrol'' p @ newline # line ''Selisih_Kontrol'' d @ [newline]) =
         Some t"
    by (rule search_number_skip_to [OF n1 a1]) (rule search_number_line [OF t])
  show "search_number ''Prediksi_Kontrol''
           (a @ newline # line ''Target_Tonase_Ekstrak'' t @ newline #
            line ''Prediksi_Kontrol'' p @ newline # line ''Selisih_Kontrol'' d @ [newline]) =
         Some p"
    by (rule search_number_skip_to [OF n2 a2], rule search_number_skip_to [OF n2 b2])
      (rule search_number_line [OF p])
  show "search_number ''Selisih_Kontrol''
           (a @ newline # line ''Target_Tonase_Ekstrak'' t @ newline #
            line ''Prediksi_Kontrol'' p @ newline # line ''Selisih_Kontrol'' d @ [newline]) =
         Some d"
    by (rule search_number_skip_to [OF n3 a3], rule search_number_skip_to [OF n3 b3],
        rule search_number_skip_to [OF n3 c3])
      (rule search_number_line [OF d, of _ "[]"])
qed

section \<open>The parameters of a rendered block\<close>

lemma starts_with_Nil: "starts_with p [] \<longleftrightarrow> p = []"
  by (cases p) simp_all

lemma match_param_not_prefix:
  "\<not> starts_with (key @ '':'') s \<Longrightarrow> match_param key s = None"
  by (simp add: match_param_def)

lemma match_param_any_none:
  "\<forall>k \<in> set keys. \<not> starts_with (k @ '':'') s \<Longrightarrow> match_param_any keys s = None"
  by (induction keys) (simp_all add: match_param_not_prefix)

lemma first_separator:
  assumes "a \<notin> set xs" and "a \<notin> set ys" and "xs @ a # r = ys @ a # r'"
  shows "xs = ys"
  using assms
proof (induction xs arbitrary: ys)
  case Nil
  then show ?case by (cases ys) auto
next
  case (Cons x xs)
  then show ?case by (cases ys) auto
qed

lemma starts_with_label:
  assumes "CHR '':'' \<notin> set k" and "CHR '':'' \<notin> set key"
    and "starts_with (k @ '':'') (key @ '':'' @ r)"
  shows "k = key"
proof -
  from assms(3) obtain r' where "key @ CHR '':'' # r = k @ CHR '':'' # r'"
    by (auto simp: starts_with_iff)
  from first_separator [OF assms(2) assms(1) this] show ?thesis by simp
qed

lemma match_param_any_label:
  assumes "key \<in> set keys" and "\<forall>k \<in> set keys. CHR '':'' \<notin> set k"
    and "match_param key (key @ '':'' @ r) = Some (v, rest)"
  shows "match_param_any keys (key @ '':'' @ r) = Some (key, v, rest)"
  using assms(1,2)
proof (induction keys)
  case Nil
  then show ?case by simp
next
  case (Cons k keys)
  show ?case
  proof (cases "k = key")
    case True
    with assms(3) show ?thesis by simp
  next
    case False
    from Cons.prems have "CHR '':'' \<notin> set k" "CHR '':'' \<notin> set key" by auto
    with False have "\<not> starts_with (k @ '':'') (key @ '':'' @ r)"
      using starts_with_label by blast
    then have "match_param k (key @ '':'' @ r) = None" by (rule match_param_not_prefix)
    moreover from Cons.prems False have "key \<in> set keys" by simp
    ultimately show ?thesis using Cons by simp
  qed
qed

lemma param_labels_no_colon: "\<forall>k \<in> set param_labels. CHR '':'' \<notin> set k"
  by (simp add: param_labels_def)

lemma param_labels_no_newline: "\<forall>k \<in> set param_labels. newline \<notin> set (k @ '':'')"
  by (simp add: param_labels_def newline_def)

lemma takeWhile_line:
  assumes "newline \<notin> set v" and "rest = [] \<or> hd rest = newline"
  shows "takeWhile (\<lambda>c. c \<noteq> newline) (v @ rest) = v"
    and "dropWhile (\<lambda>c. c \<noteq> newline) (v @ rest) = rest"
  using assms by (cases rest; induction v; auto)+

lemma match_param_line:
  assumes "newline \<notin> set v" and "dropWhile is_space v \<noteq> []"
    and "rest = [] \<or> hd rest = newline"
  shows "match_param key (line key v @ rest) = Some (dropWhile is_space v, rest)"
proof -
  have sw: "starts_with (key @ '':'') (line key v @ rest)"
    unfolding line_split by (rule starts_with_append)
  have dr: "drop (length key + 1) (line key v @ rest) = CHR '' '' # v @ rest"
    unfolding line_split by simp
  from assms(2) obtain x where "x \<in> set v" "\<not> is_space x"
    by (metis dropWhile_eq_Nil_conv)
  then have "dropWhile is_space (v @ rest) = dropWhile is_space v @ rest"
    by (rule dropWhile_append1)
  moreover have "is_space (CHR '' '')" by (simp add: is_space_def)
  ultimately have t: "dropWhile is_space (CHR '' '' # v @ rest) = dropWhile is_space v @ rest"
    by simp
  have "newline \<notin> set (dropWhile is_space v)"
    using assms(1) set_dropWhileD by fastforce
  from takeWhile_line [OF this assms(3)]
  have tw: "takeWhile (\<lambda>c. c \<noteq> newline) (dropWhile is_space v @ rest) = dropWhile is_space v"
    and dw: "dropWhile (\<lambda>c. c \<noteq> newline) (dropWhile is_space v @ rest) = rest"
    by simp_all
  from assms(2) have ne: "dropWhile is_space v @ rest \<noteq> []" by simp
  show ?thesis
    unfolding match_param_def Let_def dr t tw dw
    using sw ne by (simp only: if_True simp_thms)
qed

lemma match_param_any_line:
  assumes "key \<in> set param_labels"
    and "newline \<notin> set v" and "dropWhile is_space v \<noteq> []"
    and "rest = [] \<or> hd rest = newline"
  shows "match_param_any param_labels (line key v @ rest) =
     Some (key, dropWhile is_space v, rest)"
proof -
  have "line key v @ rest = key @ '':'' @ (CHR '' '' # v @ rest)" by (simp add: line_def)
  with match_param_line [OF assms(2-4), of key]
  have "match_param key (key @ '':'' @ (CHR '' '' # v @ rest)) =
      Some (dropWhile is_space v, rest)" by simp
  from match_param_any_label [OF assms(1) param_labels_no_colon this]
  show ?thesis by (simp add: line_def)
qed

lemma findall_params_newline: "findall_params (newline # y) = findall_params y"
proof -
  have "\<forall>k \<in> set param_labels. \<not> starts_with (k @ '':'') (newline # y)"
    by (simp add: param_labels_def newline_def)
  then show ?thesis by (simp add: match_param_any_none)
qed

lemma findall_params_skip:
  assumes "\<forall>k \<in> set param_labels. \<not> contains (k @ '':'') x"
  shows "findall_params (x @ newline # y) = findall_params y"
  using assms
proof (induction x)
  case Nil
  then show ?case by (simp only: append_Nil findall_params_newline)
next
  case (Cons h x)
  have "\<forall>k \<in> set param_labels. \<not> starts_with (k @ '':'') ((h # x) @ newline # y)"
  proof
    fix k
    assume k: "k \<in> set param_labels"
    with Cons.prems have "\<not> starts_with (k @ '':'') (h # x)" by (simp add: contains_Cons)
    moreover from k param_labels_no_newline have "newline \<notin> set (k @ '':'')" by blast
    ultimately show "\<not> starts_with (k @ '':'') ((h # x) @ newline # y)"
      using starts_with_sep by blast
  qed
  then have "match_param_any param_labels (h # x @ newline # y) = None"
    by (simp add: match_param_any_none)
  moreover from Cons.prems have "\<forall>k \<in> set param_labels. \<not> contains (k @ '':'') x"
    by (simp add: contains_Cons)
  ultimately show ?case using Cons.IH by simp
qed

lemma findall_params_match:
  assumes "match_param_any param_labels s = Some (k, v, rest)"
  shows "findall_params s = (k, v) # findall_params rest"
proof (cases s)
  case Nil
  have "match_param_any param_labels [] = None"
    by (rule match_param_any_none) (simp add: starts_with_Nil)
  with assms Nil show ?thesis by simp
next
  case (Cons c cs)
  with assms show ?thesis by simp
qed

lemma findall_params_line:
  assumes "key \<in> set param_labels"
    and "newline \<notin> set v" and "dropWhile is_space v \<noteq> []"
  shows "findall_params (line key v @ newline # y) =
     (key, dropWhile is_space v) # findall_params y"
proof -
  have "match_param_any param_labels (line key v @ newline # y) =
      Some (key, dropWhile is_space v, newline # y)"
    by (rule match_param_any_line [OF assms]) simp
  from findall_params_match [OF this] show ?thesis
    by (simp only: findall_params_newline)
qed

lemma findall_params_last_line:
  assumes "key \<in> set param_labels"
    and "newline \<notin> set v" and "dropWhile is_space v \<noteq> []"
  shows "findall_params (line key v) = [(key, dropWhile is_space v)]"
proof -
  have "match_param_any param_labels (line key v @ []) =
      Some (key, dropWhile is_space v, [])"
    by (rule match_param_any_line [OF assms]) simp
  from findall_params_match [OF this] show ?thesis by simp
qed

lemma plain_numeral_value:
  assumes "plain_numeral v"
  shows "newline \<notin> set v" and "dropWhile is_space v = v" and "v \<noteq> []"
proof -
  from plain_numeral_set [OF assms] show "newline \<notin> set v" by (auto simp: newline_def)
  from assms show "v \<noteq> []" by (simp add: plain_numeral_def)
  with assms show "dropWhile is_space v = v"
    by (intro dropWhile_id) (simp_all add: plain_numeral_hd numch_not_space)
qed

lemma findall_params_numeral_line:
  assumes "key \<in> set param_labels" and "plain_numeral v"
  shows "findall_params (line key v @ newline # y) = (key, v) # findall_params y"
  using findall_params_line [OF assms(1), of v y] plain_numeral_value [OF assms(2)]
  by simp

section \<open>A rendered block\<close>

lemma show_int_numeral: "0 \<le> i \<Longrightarrow> plain_numeral (show_int i)"
  by (simp add: show_int_nonneg plain_numeral_show_nat)

lemma py_int_float_show_int:
  assumes "0 \<le> i" and "i < 2 ^ 53"
  shows "py_int_float (show_int i) = Inr i"
proof -
  from assms have "nat i < 2 ^ 53" by (simp add: nat_less_iff)
  from py_int_float_show_nat [OF this] assms(1) show ?thesis
    by (simp add: show_int_nonneg)
qed

lemma convert_int:
  assumes "0 \<le> i" and "i < 2 ^ 53"
    and "k \<in> set [''trucks'', ''excavators'', ''operators'']"
  shows "convert_value k (clean_value (show_int i)) = Inr (PInt i)"
  using assms(3)
  by (simp only: convert_value_def plain_numeral_clean [OF show_int_numeral [OF assms(1)]]
      py_int_float_show_int [OF assms(1,2)] if_True sum.case)

lemma convert_float:
  assumes "readable show_float x"
    and "k \<in> set [''predicted_tonnage'', ''difference_from_target'']"
  shows "convert_value k (clean_value (show_float x)) = Inr (PFloat x)"
proof -
  from assms(1) have n: "plain_numeral (show_float x)" and f: "py_float (show_float x) = Inr x"
    by (simp_all add: readable_def)
  from assms(2) have "k \<notin> set [''trucks'', ''excavators'', ''operators'']" by auto
  with assms(2) show ?thesis
    by (simp only: convert_value_def plain_numeral_clean [OF n] f if_True if_False sum.case)
qed

lemma convert_other:
  assumes "k \<in> set [''weather'', ''rationale'']"
  shows "convert_value k v = Inr (PStr v)"
proof -
  from assms have "k \<notin> set [''trucks'', ''excavators'', ''operators'']"
    and "k \<notin> set [''predicted_tonnage'', ''difference_from_target'']" by auto
  then show ?thesis by (simp only: convert_value_def if_False)
qed

lemma title_line_split:
  "title_line i t = ''Rekomendasi'' @ CHR '' '' # (show_nat i @ '':'') @ CHR '' '' # t"
  by (simp add: title_line_def line_def)

lemma title_line_stripped: "title_line i t \<noteq> []" "\<not> is_space (hd (title_line i t))"
  by (simp_all add: title_line_split is_space_def)

lemma show_nat_set: "set (show_nat i) \<subseteq> set ''0123456789''"
  by (rule digits_facts [OF show_nat_nonempty show_nat_digits])

lemma title_line_no_param:
  assumes "\<forall>k \<in> set param_labels. \<not> contains (k @ '':'') t"
  shows "\<forall>k \<in> set param_labels. \<not> contains (k @ '':'') (title_line i t)"
proof
  fix k
  assume k: "k \<in> set param_labels"
  then have sp: "CHR '' '' \<notin> set (k @ '':'')"
    and hd: "hd k \<in> set (k @ '':'')" "hd k \<in> set ''TEOCPSA''"
    by (auto simp: param_labels_def)
  have "\<not> contains (k @ '':'') ''Rekomendasi''"
    by (rule contains_char [of "CHR '':''"]) simp_all
  moreover have "\<not> contains (k @ '':'') (show_nat i @ '':'')"
    by (rule contains_char [OF hd(1)]) (use hd(2) show_nat_set [of i] in auto)
  moreover from assms k have "\<not> contains (k @ '':'') t" by blast
  ultimately show "\<not> contains (k @ '':'') (title_line i t)"
    by (simp only: title_line_split contains_sep [OF sp] simp_thms)
qed

lemma START_chars:
  "newline \<notin> set START_RECOMMENDATION" "CHR '' '' \<notin> set START_RECOMMENDATION"
  "CHR ''-'' \<in> set START_RECOMMENDATION" "START_RECOMMENDATION \<noteq> []"
  by (simp_all add: START_RECOMMENDATION_def newline_def)

lemma title_line_no_delimiter:
  assumes "\<not> contains START_RECOMMENDATION t"
  shows "\<not> contains START_RECOMMENDATION (title_line i t)"
proof -
  have "\<not> contains START_RECOMMENDATION ''Rekomendasi''"
    by (rule contains_char [OF START_chars(3)]) simp
  moreover have "\<not> contains START_RECOMMENDATION (show_nat i @ '':'')"
    by (rule contains_char [OF START_chars(3)]) (use show_nat_set [of i] in auto)
  ultimately show ?thesis
    using assms by (simp only: title_line_split contains_sep [OF START_chars(2)] simp_thms)
qed

lemma numeral_line_no_delimiter:
  assumes "k \<in> set param_labels" and "plain_numeral v"
  shows "\<not> contains START_RECOMMENDATION (line k v)"
proof (rule contains_char [OF START_chars(3)])
  from assms(1) have "CHR ''-'' \<notin> set k" by (auto simp: param_labels_def)
  with plain_numeral_set [OF assms(2)] show "CHR ''-'' \<notin> set (line k v)"
    by (auto simp: set_line)
qed

lemma rationale_line_no_delimiter:
  assumes "\<not> contains START_RECOMMENDATION v"
  shows "\<not> contains START_RECOMMENDATION (line ''Alasan'' v)"
proof -
  have "line ''Alasan'' v = ''Alasan:'' @ CHR '' '' # v" by (simp add: line_def)
  moreover have "\<not> contains START_RECOMMENDATION ''Alasan:''"
    by (rule contains_char [OF START_chars(3)]) simp
  ultimately show ?thesis
    using assms by (simp only: contains_sep [OF START_chars(2)] simp_thms)
qed

text \<open>The parts of a well-formed recommendation, as the lemmas on lines need them.\<close>

lemma well_formed_recommendation_numerals:
  assumes "well_formed_recommendation show_float r"
  shows "plain_numeral (show_int (rec_trucks r))"
    and "plain_numeral (show_int (rec_excavators r))"
    and "plain_numeral (show_int (rec_operators r))"
    and "plain_numeral (show_int (rec_weather r))"
    and "plain_numeral (show_float (rec_predicted_tonnage r))"
    and "plain_numeral (show_float (rec_difference_from_target r))"
  using assms
  by (auto simp: well_formed_recommendation_def readable_def intro: show_int_numeral)

lemma well_formed_recommendation_rationale:
  assumes "well_formed_recommendation show_float r"
  shows "newline \<notin> set (rec_rationale r)"
    and "dropWhile is_space (rec_rationale r) \<noteq> []"
    and "rec_rationale r \<noteq> []"
    and "\<not> is_space (last (rec_rationale r))"
proof -
  from assms show ne: "rec_rationale r \<noteq> []" and sp: "\<not> is_space (last (rec_rationale r))"
    and "newline \<notin> set (rec_rationale r)"
    by (simp_all add: well_formed_recommendation_def)
  from ne have "last (rec_rationale r) \<in> set (rec_rationale r)" by simp
  with sp show "dropWhile is_space (rec_rationale r) \<noteq> []"
    by (auto simp: dropWhile_eq_Nil_conv)
qed

lemma param_labels_members:
  "''Truk'' \<in> set param_labels" "''Ekskavator'' \<in> set param_labels"
  "''Operator'' \<in> set param_labels" "''Cuaca'' \<in> set param_labels"
  "''Prediksi'' \<in> set param_labels" "''Selisih'' \<in> set param_labels"
  "''Alasan'' \<in> set param_labels"
  by (simp_all add: param_labels_def)

lemma render_block_lines:
  "render_block show_float i r =
     title_line i (rec_title r) @ newline #
     line ''Truk'' (show_int (rec_trucks r)) @ newline #
     line ''Ekskavator'' (show_int (rec_excavators r)) @ newline #
     line ''Operator'' (show_int (rec_operators r)) @ newline #
     line ''Cuaca'' (show_int (rec_weather r)) @ newline #
     line ''Prediksi'' (show_float (rec_predicted_tonnage r)) @ newline #
     line ''Selisih'' (show_float (rec_difference_from_target r)) @ newline #
     line ''Alasan'' (rec_rationale r)"
  by (simp only: render_block_def append_Cons append_Nil)

lemma findall_rendered_block:
  assumes wf: "well_formed_recommendation show_float r"
  shows "findall_params (render_block show_float i r) =
     [(''Truk'', show_int (rec_trucks r)),
      (''Ekskavator'', show_int (rec_excavators r)),
      (''Operator'', show_int (rec_operators r)),
      (''Cuaca'', show_int (rec_weather r)),
      (''Prediksi'', show_float (rec_predicted_tonnage r)),
      (''Selisih'', show_float (rec_difference_from_target r)),
      (''Alasan'', dropWhile is_space (rec_rationale r))]"
proof -
  from wf have "\<forall>k \<in> set param_labels. \<not> contains (k @ '':'') (rec_title r)"
    by (simp add: well_formed_recommendation_def)
  note tl = title_line_no_param [OF this, of i]
  note num = well_formed_recommendation_numerals [OF wf]
  note rat = well_formed_recommendation_rationale [OF wf]
  note mem = param_labels_members
  show ?thesis
    by (simp only: render_block_lines findall_params_skip [OF tl]
        findall_params_numeral_line [OF mem(1) num(1)]
        findall_params_numeral_line [OF mem(2) num(2)]
        findall_params_numeral_line [OF mem(3) num(3)]
        findall_params_numeral_line [OF mem(4) num(4)]
        findall_params_numeral_line [OF mem(5) num(5)]
        findall_params_numeral_line [OF mem(6) num(6)]
        findall_params_last_line [OF mem(7) rat(1,2)])
qed

lemma block_no_delimiter:
  assumes wf: "well_formed_recommendation show_float r"
  shows "\<not> contains START_RECOMMENDATION (render_block show_float i r)"
proof -
  from wf have t: "\<not> contains START_RECOMMENDATION (rec_title r)"
    and a: "\<not> contains START_RECOMMENDATION (rec_rationale r)"
    by (simp_all add: well_formed_recommendation_def)
  note num = well_formed_recommendation_numerals [OF wf]
  note mem = param_labels_members
  show ?thesis
    using title_line_no_delimiter [OF t, of i]
      numeral_line_no_delimiter [OF mem(1) num(1)]
      numeral_line_no_delimiter [OF mem(2) num(2)]
      numeral_line_no_delimiter [OF mem(3) num(3)]
      numeral_line_no_delimiter [OF mem(4) num(4)]
      numeral_line_no_delimiter [OF mem(5) num(5)]
      numeral_line_no_delimiter [OF mem(6) num(6)]
      rationale_line_no_delimiter [OF a]
    by (simp only: render_block_lines contains_sep [OF START_chars(1)] simp_thms)
qed

lemma render_block_stripped:
  assumes wf: "well_formed_recommendation show_float r"
  shows "strip (newline # render_block show_float i r @ [newline]) = render_block show_float i r"
proof (rule strip_wrapped)
  show "render_block show_float i r \<noteq> []"
    by (simp add: render_block_lines title_line_stripped)
  show "\<not> is_space (hd (render_block show_float i r))"
    using title_line_stripped [of i "rec_title r"] by (simp add: render_block_lines)
  from well_formed_recommendation_rationale [OF wf]
  show "\<not> is_space (last (render_block show_float i r))"
    by (simp add: render_block_lines line_nonempty) (simp add: line_def)
qed

lemma parse_block_rendered:
  assumes wf: "well_formed_recommendation show_float r"
  shows "parse_block (render_block show_float i r) =
     Inr (parsed_recommendation (block_title (render_block show_float i r)) r)"
proof -
  from wf have ints: "0 \<le> rec_trucks r" "rec_trucks r < 2 ^ 53"
    "0 \<le> rec_excavators r" "rec_excavators r < 2 ^ 53"
    "0 \<le> rec_operators r" "rec_operators r < 2 ^ 53"
    and w: "0 \<le> rec_weather r"
    and fl: "readable show_float (rec_predicted_tonnage r)"
    "readable show_float (rec_difference_from_target r)"
    by (auto simp: well_formed_recommendation_def)
  have c1: "convert_value ''trucks'' (clean_value (show_int (rec_trucks r))) =
      Inr (PInt (rec_trucks r))"
    by (rule convert_int [OF ints(1,2)]) simp
  have c2: "convert_value ''excavators'' (clean_value (show_int (rec_excavators r))) =
      Inr (PInt (rec_excavators r))"
    by (rule convert_int [OF ints(3,4)]) simp
  have c3: "convert_value ''operators'' (clean_value (show_int (rec_operators r))) =
      Inr (PInt (rec_operators r))"
    by (rule convert_int [OF ints(5,6)]) simp
  have c4: "convert_value ''weather'' (clean_value (show_int (rec_weather r))) =
      Inr (PStr (show_int (rec_weather r)))"
    by (simp add: convert_other plain_numeral_clean [OF show_int_numeral [OF w]])
  have c5: "convert_value ''predicted_tonnage''
      (clean_value (show_float (rec_predicted_tonnage r))) =
      Inr (PFloat (rec_predicted_tonnage r))"
    by (rule convert_float [OF fl(1)]) simp
  have c6: "convert_value ''difference_from_target''
      (clean_value (show_float (rec_difference_from_target r))) =
      Inr (PFloat (rec_difference_from_target r))"
    by (rule convert_float [OF fl(2)]) simp
  have c7: "convert_value ''rationale'' v = Inr (PStr v)" for v
    by (simp add: convert_other)
  have "apply_params (findall_params (render_block show_float i r)) [(''title'', PStr t)] =
      Inr (parsed_recommendation t r)" for t
    by (simp add: findall_rendered_block [OF wf] mapping_def c1 c2 c3 c4 c5 c6 c7
        parsed_recommendation_def)
  then show ?thesis
    by (simp add: parse_block_def block_title_def parsed_recommendation_def)
qed

lemma parsed_recommendation_length: "1 < length (parsed_recommendation t r)"
  by (simp add: parsed_recommendation_def)

section \<open>The rendered recommendations\<close>

lemma no_delimiter_after_newline:
  assumes "\<not> contains START_RECOMMENDATION x"
  shows "\<not> contains START_RECOMMENDATION (newline # x)"
proof -
  have "\<not> starts_with START_RECOMMENDATION (newline # x)"
    by (simp add: START_RECOMMENDATION_def newline_def)
  with assms show ?thesis by (simp add: contains_Cons)
qed

lemma split_on_newline: "split_on START_RECOMMENDATION [newline] = [[newline]]"
proof -
  have "\<not> contains START_RECOMMENDATION []" by (simp add: contains_Nil START_chars)
  from no_delimiter_after_newline [OF this]
  have "find_sub START_RECOMMENDATION [newline] = None" by (simp only: contains_def not_not)
  then show ?thesis by (subst split_on.simps) (simp only: START_chars if_False option.case)
qed

lemma split_on_block:
  assumes "\<not> contains START_RECOMMENDATION x"
  shows "split_on START_RECOMMENDATION
           (newline # x @ [newline] @ START_RECOMMENDATION @ [newline] @ rest) =
         (newline # x @ [newline]) # split_on START_RECOMMENDATION (newline # rest)"
proof -
  have "find_sub START_RECOMMENDATION
          ((newline # x) @ newline # START_RECOMMENDATION @ (newline # rest)) =
        Some ((newline # x) @ [newline], newline # rest)"
    by (rule find_sub_sep [OF START_chars(1) START_chars(4)
          no_delimiter_after_newline [OF assms]])
  then have "find_sub START_RECOMMENDATION
          (newline # x @ [newline] @ START_RECOMMENDATION @ [newline] @ rest) =
        Some (newline # x @ [newline], newline # rest)"
    by simp
  then show ?thesis
    by (subst split_on.simps) (simp only: START_chars if_False option.case prod.case)
qed

lemma parse_blocks_rendered:
  assumes "list_all (well_formed_recommendation show_float) rs"
  shows "\<exists>titles. length titles = length rs \<and>
     parse_blocks
       (split_on START_RECOMMENDATION (newline # render_recommendations show_float i rs)) acc =
     Inr (acc @ map2 parsed_recommendation titles rs)"
  using assms
proof (induction rs arbitrary: i acc)
  case Nil
  show ?case by (simp add: split_on_newline strip_newline)
next
  case (Cons r rs)
  then have wf: "well_formed_recommendation show_float r"
    and rest: "list_all (well_formed_recommendation show_float) rs"
    by simp_all
  define x where "x = render_block show_float i r"
  define d where "d = parsed_recommendation (block_title x) r"
  from Cons.IH [OF rest, of "i + 1" "acc @ [d]"] obtain titles where
    len: "length titles = length rs"
    and ih: "parse_blocks
        (split_on START_RECOMMENDATION (newline # render_recommendations show_float (i + 1) rs))
        (acc @ [d]) = Inr ((acc @ [d]) @ map2 parsed_recommendation titles rs)"
    by blast
  have split: "split_on START_RECOMMENDATION
      (newline # render_recommendations show_float i (r # rs)) =
      (newline # x @ [newline]) #
      split_on START_RECOMMENDATION (newline # render_recommendations show_float (i + 1) rs)"
    using split_on_block [OF block_no_delimiter [OF wf, of i]]
    by (simp add: x_def)
  have strip: "strip (newline # x @ [newline]) = x"
    unfolding x_def by (rule render_block_stripped [OF wf])
  have ne: "x \<noteq> []" by (simp add: x_def render_block_lines title_line_stripped)
  have block: "parse_block x = Inr d"
    unfolding x_def d_def by (rule parse_block_rendered [OF wf])
  have long: "1 < length d" unfolding d_def by (rule parsed_recommendation_length)
  have "parse_blocks
      (split_on START_RECOMMENDATION (newline # render_recommendations show_float i (r # rs)))
      acc = Inr (acc @ map2 parsed_recommendation (block_title x # titles) (r # rs))"
    unfolding split using strip ne block long ih by (simp add: d_def)
  with len show ?case
    by (intro exI [of _ "block_title x # titles"]) simp
qed

section \<open>The rendered analysis\<close>

lemma END_chars:
  "newline \<notin> set END_ANALYSIS" "CHR ''-'' \<in> set END_ANALYSIS" "END_ANALYSIS \<noteq> []"
  by (simp_all add: END_ANALYSIS_def newline_def)

lemma analysis_line_no_delimiter:
  assumes "lbl \<in> set analysis_labels" and "plain_numeral v"
  shows "\<not> contains END_ANALYSIS (line lbl v)"
proof (rule contains_char [OF END_chars(2)])
  from assms(1) have "CHR ''-'' \<notin> set lbl" by (auto simp: analysis_labels_def)
  with plain_numeral_set [OF assms(2)] show "CHR ''-'' \<notin> set (line lbl v)"
    by (auto simp: set_line)
qed

lemma render_analysis_lines:
  "render_analysis show_float res =
     res_initial_analysis_text res @ newline #
     line ''Target_Tonase_Ekstrak'' (show_int (res_target_tonnage res)) @ newline #
     line ''Prediksi_Kontrol'' (show_float (res_initial_prediction res)) @ newline #
     line ''Selisih_Kontrol'' (show_float (res_initial_difference res))"
  by (simp only: render_analysis_def append_Cons append_Nil)

lemma well_formed_numerals:
  assumes "well_formed show_float res"
  shows "plain_numeral (show_int (res_target_tonnage res))"
    and "plain_numeral (show_float (res_initial_prediction res))"
    and "plain_numeral (show_float (res_initial_difference res))"
  using assms by (auto simp: well_formed_def readable_def intro: show_int_numeral)

lemma analysis_no_delimiter:
  assumes wf: "well_formed show_float res"
  shows "\<not> contains END_ANALYSIS (render_analysis show_float res)"
proof -
  from wf have a: "\<not> contains END_ANALYSIS (res_initial_analysis_text res)"
    by (simp add: well_formed_def)
  note num = well_formed_numerals [OF wf]
  have mem: "''Target_Tonase_Ekstrak'' \<in> set analysis_labels"
    "''Prediksi_Kontrol'' \<in> set analysis_labels" "''Selisih_Kontrol'' \<in> set analysis_labels"
    by (simp_all add: analysis_labels_def)
  show ?thesis
    using a analysis_line_no_delimiter [OF mem(1) num(1)]
      analysis_line_no_delimiter [OF mem(2) num(2)]
      analysis_line_no_delimiter [OF mem(3) num(3)]
    by (simp only: render_analysis_lines contains_sep [OF END_chars(1)] simp_thms)
qed

lemma analysis_numbers_rendered:
  assumes wf: "well_formed show_float res"
  shows "analysis_numbers (render_analysis show_float res @ [newline]) =
     Inr (res_initial_prediction res, res_target_tonnage res, res_initial_difference res)"
proof -
  from wf have a: "\<forall>lbl \<in> set analysis_labels.
      \<not> contains (lbl @ '':'') (res_initial_analysis_text res)"
    and t: "0 \<le> res_target_tonnage res" "res_target_tonnage res < 2 ^ 53"
    and p: "py_float (show_float (res_initial_prediction res)) = Inr (res_initial_prediction res)"
    and d: "py_float (show_float (res_initial_difference res)) = Inr (res_initial_difference res)"
    by (simp_all add: well_formed_def readable_def)
  note num = well_formed_numerals [OF wf]
  have shape: "render_analysis show_float res @ [newline] =
      res_initial_analysis_text res @ newline #
      line ''Target_Tonase_Ekstrak'' (show_int (res_target_tonnage res)) @ newline #
      line ''Prediksi_Kontrol'' (show_float (res_initial_prediction res)) @ newline #
      line ''Selisih_Kontrol'' (show_float (res_initial_difference res)) @ [newline]"
    by (simp only: render_analysis_lines append_Cons append_Nil append_assoc)
  show ?thesis
    unfolding analysis_numbers_def shape
    by (simp only: rendered_analysis_numbers [OF a num] option.case p d
        py_int_float_show_int [OF t] sum.case)
qed

section \<open>The round trip\<close>

lemma render_cut:
  assumes wf: "well_formed show_float res"
  shows "find_sub END_ANALYSIS (render show_float res) =
     Some (render_analysis show_float res @ [newline],
           newline # render_recommendations show_float 1 (res_recommendations res))"
proof -
  have "find_sub END_ANALYSIS
      (render_analysis show_float res @ newline # END_ANALYSIS @
       (newline # render_recommendations show_float 1 (res_recommendations res))) =
      Some (render_analysis show_float res @ [newline],
            newline # render_recommendations show_float 1 (res_recommendations res))"
    by (rule find_sub_sep [OF END_chars(1) END_chars(3) analysis_no_delimiter [OF wf]])
  then show ?thesis by (simp add: render_def)
qed

text \<open>
  Claim C8, amended. For every well-formed result (a positive integer target below
  \<open>2 ^ 53\<close>, a prediction that is not zero, the prediction, the difference and the two floats
  of each recommendation written as plain numerals that \<open>float()\<close> reads back, the trucks,
  excavators and operators natural numbers below \<open>2 ^ 53\<close>, the weather 0, 1 or 2, an
  analysis text without the delimiter of the analysis and without a label of the analysis
  followed by a colon, one-line titles and rationales without the delimiter of the
  recommendations, titles without a label of a parameter followed by a colon, rationales
  that are not empty and do not end in white space), parsing the rendering of the result
  succeeds and gives back the target, the prediction and the difference, and one
  dictionary for each recommendation, in order, with its trucks, excavators and operators
  as integers, its predicted tonnage and difference as floats, and its weather as the
  decimal string of its number.
\<close>

theorem round_trip:
  assumes "well_formed show_float res"
  shows "\<exists>txt titles.
     length titles = length (res_recommendations res) \<and>
     parse_agent_response (render show_float res) =
       Parsed
         \<lparr>initial_analysis_text = txt,
          initial_prediction = res_initial_prediction res,
          target_tonnage = res_target_tonnage res,
          initial_difference = res_initial_difference res,
          recommendations = map2 parsed_recommendation titles (res_recommendations res)\<rparr>"
proof -
  from assms have recs: "list_all (well_formed_recommendation show_float) (res_recommendations res)"
    and nz: "res_target_tonnage res \<noteq> 0" "res_initial_prediction res \<noteq> Finite 0"
    by (auto simp: well_formed_def)
  from parse_blocks_rendered [OF recs, of 1 "[]"] obtain titles where
    len: "length titles = length (res_recommendations res)"
    and blocks: "parse_blocks
        (split_on START_RECOMMENDATION
           (newline # render_recommendations show_float 1 (res_recommendations res))) [] =
        Inr (map2 parsed_recommendation titles (res_recommendations res))"
    by auto
  have "parse_agent_response (render show_float res) =
      Parsed
        \<lparr>initial_analysis_text = strip (sub_labels (render_analysis show_float res @ [newline])),
         initial_prediction = res_initial_prediction res,
         target_tonnage = res_target_tonnage res,
         initial_difference = res_initial_difference res,
         recommendations = map2 parsed_recommendation titles (res_recommendations res)\<rparr>"
    using nz
    by (simp only: parse_with_delimiter [OF render_cut [OF assms]]
        analysis_numbers_rendered [OF assms] blocks sum.case prod.case simp_thms if_False)
  with len show ?thesis by blast
qed

section \<open>The round trip on the concrete scenario\<close>

text \<open>The rendering of the example is the text of the concrete scenario.\<close>

lemma example_rendered:
  "render example_show_float example_result = spec_example @ [newline]"
  by code_simp

lemma example_readable:
  "readable example_show_float (Finite (151 / 2))"
  "readable example_show_float (Finite (9 / 2))"
  "readable example_show_float (Finite (5615425785377587 / 70368744177664))"
  "readable example_show_float (Finite (3602879701896397 / 18014398509481984))"
  by code_simp+

lemma example_recommendation_well_formed:
  "well_formed_recommendation example_show_float example_recommendation"
  by code_simp

lemma example_well_formed: "well_formed example_show_float example_result"
  by code_simp

theorem round_trip_witness:
  "well_formed example_show_float example_result \<and>
   (\<exists>txt titles.
      length titles = length (res_recommendations example_result) \<and>
      parse_agent_response (render example_show_float example_result) =
        Parsed
          \<lparr>initial_analysis_text = txt,
           initial_prediction = Finite (151 / 2),
           target_tonnage = 80,
           initial_difference = Finite (9 / 2),
           recommendations =
             map2 parsed_recommendation titles (res_recommendations example_result)\<rparr>)"
  using round_trip [OF example_well_formed] example_well_formed
  by (simp add: example_result_def)

text \<open>
  Claim C8, as stated: every result with a target that is a non-zero integer would come
  back from its rendering. The pattern of the target takes digits and points only, so a
  negative target is not read: the target is taken as missing and the parser fails.
\<close>

theorem negative_target_lost:
  "res_target_tonnage negative_target_result = - 80 \<and>
   parse_agent_response (render example_show_float negative_target_result) =
     Error IncompleteAnalysis"
  by code_simp

end
